theory Spec2Isabelle
  imports Complex_Main "HOL-Library.Monad_Syntax"
begin

section \<open>Scalars: the C++ type float\<close>

text \<open>
  The source computes in \<^verbatim>\<open>float\<close>.  A value is a finite number, one of the two
  infinities or a NaN.  The special values follow IEEE 754 (an infinity times zero, the
  difference of two equal infinities and zero divided by zero are NaN; a non-zero number
  divided by zero is an infinity; NaN is absorbing).  Two things are idealised: the
  result of an operation on finite numbers is the exact real result (no rounding, no
  overflow), and there is one zero, taken as positive where its sign matters (a division
  by zero gives the infinity with the sign of the numerator).
\<close>

datatype float = Fin real | PInf | MInf | NaN

fun is_Fin :: "float \<Rightarrow> bool" where
  "is_Fin (Fin a) = True"
| "is_Fin x = False"

fun fsqrt :: "float \<Rightarrow> float" where
  "fsqrt (Fin a) = (if a < 0 then NaN else Fin (sqrt a))"
| "fsqrt PInf = PInf"
| "fsqrt x = NaN"

instantiation float :: "{plus, uminus, minus, times, inverse}"
begin

fun plus_float :: "float \<Rightarrow> float \<Rightarrow> float" where
  "Fin a + Fin b = Fin (a + b)"
| "NaN + y = NaN"
| "x + NaN = NaN"
| "PInf + MInf = NaN"
| "MInf + PInf = NaN"
| "PInf + y = PInf"
| "MInf + y = MInf"
| "x + PInf = PInf"
| "x + MInf = MInf"

fun uminus_float :: "float \<Rightarrow> float" where
  "- Fin a = Fin (- a)"
| "- PInf = MInf"
| "- MInf = PInf"
| "- NaN = NaN"

definition minus_float :: "float \<Rightarrow> float \<Rightarrow> float" where
  "minus_float x y = x + (- y)"

fun times_float :: "float \<Rightarrow> float \<Rightarrow> float" where
  "Fin a * Fin b = Fin (a * b)"
| "NaN * y = NaN"
| "x * NaN = NaN"
| "PInf * Fin b = (if b = 0 then NaN else if 0 < b then PInf else MInf)"
| "MInf * Fin b = (if b = 0 then NaN else if 0 < b then MInf else PInf)"
| "Fin a * PInf = (if a = 0 then NaN else if 0 < a then PInf else MInf)"
| "Fin a * MInf = (if a = 0 then NaN else if 0 < a then MInf else PInf)"
| "PInf * PInf = PInf"
| "PInf * MInf = MInf"
| "MInf * PInf = MInf"
| "MInf * MInf = PInf"

fun divide_float :: "float \<Rightarrow> float \<Rightarrow> float" where
  "divide_float (Fin a) (Fin b) =
     (if b = 0 then (if a = 0 then NaN else if 0 < a then PInf else MInf)
      else Fin (a / b))"
| "divide_float NaN y = NaN"
| "divide_float x NaN = NaN"
| "divide_float (Fin a) y = Fin 0"
| "divide_float PInf (Fin b) = (if 0 \<le> b then PInf else MInf)"
| "divide_float MInf (Fin b) = (if 0 \<le> b then MInf else PInf)"
| "divide_float x y = NaN"

definition inverse_float :: "float \<Rightarrow> float" where
  "inverse_float x = divide (Fin 1) x"

instance ..

end

section \<open>Vectors: Eigen's Vector2f\<close>

type_synonym Vector2f = "float \<times> float"

definition Zero :: Vector2f where
  "Zero = (Fin 0, Fin 0)"

text \<open>\<^verbatim>\<open>a + b\<close> and \<^verbatim>\<open>a - b\<close> on vectors, componentwise.\<close>

fun vadd :: "Vector2f \<Rightarrow> Vector2f \<Rightarrow> Vector2f" where
  "vadd (a0, a1) (b0, b1) = (a0 + b0, a1 + b1)"

fun vsub :: "Vector2f \<Rightarrow> Vector2f \<Rightarrow> Vector2f" where
  "vsub (a0, a1) (b0, b1) = (a0 - b0, a1 - b1)"

text \<open>\<^verbatim>\<open>c * v\<close>, a scalar times a vector.\<close>

fun scale :: "float \<Rightarrow> Vector2f \<Rightarrow> Vector2f" where
  "scale c (a0, a1) = (c * a0, c * a1)"

text \<open>\<^verbatim>\<open>v.norm()\<close>: the square root of the sum of the squared coefficients.\<close>

fun norm_v :: "Vector2f \<Rightarrow> float" where
  "norm_v (a0, a1) = fsqrt (a0 * a0 + a1 * a1)"

section \<open>Mass\<close>

record Mass =
  m :: float
  position :: Vector2f
  velocity :: Vector2f
  forcesApplied :: Vector2f
  isFixed :: bool

text \<open>
  The two constructors \<^verbatim>\<open>Mass(x, y, m)\<close> and \<^verbatim>\<open>Mass(x, y)\<close>.  Neither
  initialises \<^verbatim>\<open>forcesApplied\<close>: its content after construction is indeterminate,
  and is the first argument here.
\<close>

definition Mass_xym :: "Vector2f \<Rightarrow> float \<Rightarrow> float \<Rightarrow> float \<Rightarrow> Mass" where
  "Mass_xym junk x y mm =
     \<lparr>m = mm, position = (x, y), velocity = (Fin 0, Fin 0), forcesApplied = junk,
      isFixed = False\<rparr>"

definition Mass_xy :: "Vector2f \<Rightarrow> float \<Rightarrow> float \<Rightarrow> Mass" where
  "Mass_xy junk x y =
     \<lparr>m = Fin 0, position = (x, y), velocity = (Fin 0, Fin 0), forcesApplied = junk,
      isFixed = True\<rparr>"

text \<open>
  \<^verbatim>\<open>operator<<\<close> on a Mass.  How the stream formats one float is the parameter
  \<open>shw\<close>; the stream is the text written so far.
\<close>

definition put_Mass :: "(float \<Rightarrow> string) \<Rightarrow> string \<Rightarrow> Mass \<Rightarrow> string" where
  "put_Mass shw os mm =
     os @ shw (fst (position mm)) @ [CHR '' ''] @ shw (snd (position mm)) @ [CHR '' '']
        @ shw (fst (velocity mm)) @ [CHR '' ''] @ shw (snd (velocity mm)) @ [CHR 0x0A]"

section \<open>Spring\<close>

text \<open>
  A \<^verbatim>\<open>Mass*\<close> is null or the address of element \<open>i\<close> counted from the start of
  the owning System's \<^verbatim>\<open>masses\<close> vector; \<open>i\<close> may lie past the end, the pointer is
  then dangling.  Pointers to other objects are not modelled.
\<close>

datatype Mass_ptr = Null | Elem nat

record Spring =
  k :: float
  l :: float
  mass1 :: Mass_ptr
  mass2 :: Mass_ptr

text \<open>
  Reading or writing through a pointer.  The result \<open>None\<close> stands for undefined
  behaviour (a null or dangling pointer is dereferenced); the source reports nothing
  there.
\<close>

fun deref :: "Mass list \<Rightarrow> Mass_ptr \<Rightarrow> Mass option" where
  "deref ms Null = None"
| "deref ms (Elem i) = (if i < length ms then Some (ms ! i) else None)"

fun store :: "Mass list \<Rightarrow> Mass_ptr \<Rightarrow> Mass \<Rightarrow> Mass list option" where
  "store ms Null v = None"
| "store ms (Elem i) v = (if i < length ms then Some (ms[i := v]) else None)"

text \<open>
  \<^verbatim>\<open>Spring::force\<close>.  The norm of \<open>x2 - x1\<close> is computed twice and nothing guards
  the division by it.  (The literal \<^verbatim>\<open>1.\<close> makes that one division a double
  division; with exact results on finite values the precision plays no part.)
\<close>

definition force :: "Mass list \<Rightarrow> Spring \<Rightarrow> Vector2f option" where
  "force ms s = do {
     ma \<leftarrow> deref ms (mass1 s);
     mb \<leftarrow> deref ms (mass2 s);
     let x1 = position ma;
     let x2 = position mb;
     let direction = scale (Fin 1 / norm_v (vsub x2 x1)) (vsub x2 x1);
     Some (scale (k s * (norm_v (vsub x2 x1) - l s)) direction)
   }"

section \<open>System\<close>

record System =
  masses :: "Mass list"
  springs :: "Spring list"

text \<open>
  The connectivity is a \<^verbatim>\<open>std::map\<close> from a spring index to a pair of mass
  indices; it is given here by the sequence of its entries in iteration order.
\<close>

type_synonym Connectivity = "(nat \<times> (nat \<times> nat)) list"

text \<open>
  The constructor's loop.  \<^verbatim>\<open>springs[c.first]\<close> past the end of the vector is a
  write outside its storage (undefined behaviour, \<open>None\<close>).  \<^verbatim>\<open>&masses[i]\<close> only
  forms an address and is stored whatever \<open>i\<close> is.
\<close>

fun wire :: "Connectivity \<Rightarrow> Spring list \<Rightarrow> Spring list option" where
  "wire [] ss = Some ss"
| "wire ((c, (i, j)) # cs) ss =
     (if c < length ss
      then wire cs (ss[c := (ss ! c)\<lparr>mass1 := Elem i, mass2 := Elem j\<rparr>])
      else None)"

definition System_ctor :: "Mass list \<Rightarrow> Spring list \<Rightarrow> Connectivity \<Rightarrow> System option" where
  "System_ctor masses0 springs0 connectivity = do {
     ss \<leftarrow> wire connectivity springs0;
     Some \<lparr>masses = masses0, springs = ss\<rparr>
   }"

definition forcesZero_body :: "Mass \<Rightarrow> Mass" where
  "forcesZero_body mm = mm\<lparr>forcesApplied := Zero\<rparr>"

definition forcesZero :: "System \<Rightarrow> System" where
  "forcesZero sys = sys\<lparr>masses := map forcesZero_body (masses sys)\<rparr>"

text \<open>
  One iteration of the loop of \<^verbatim>\<open>updateForces\<close>: two statements, each of which
  calls \<^verbatim>\<open>s.force()\<close> and then updates the mass behind one of the two pointers.
\<close>

definition updateForces_body :: "Spring \<Rightarrow> Mass list \<Rightarrow> Mass list option" where
  "updateForces_body s ms = do {
     f1 \<leftarrow> force ms s;
     ma \<leftarrow> deref ms (mass1 s);
     ms1 \<leftarrow> store ms (mass1 s) (ma\<lparr>forcesApplied := vadd (forcesApplied ma) f1\<rparr>);
     f2 \<leftarrow> force ms1 s;
     mb \<leftarrow> deref ms1 (mass2 s);
     store ms1 (mass2 s) (mb\<lparr>forcesApplied := vsub (forcesApplied mb) f2\<rparr>)
   }"

fun updateForces_loop :: "Spring list \<Rightarrow> Mass list \<Rightarrow> Mass list option" where
  "updateForces_loop [] ms = Some ms"
| "updateForces_loop (s # ss) ms = do {
     ms' \<leftarrow> updateForces_body s ms;
     updateForces_loop ss ms'
   }"

definition updateForces :: "System \<Rightarrow> System option" where
  "updateForces sys = do {
     ms \<leftarrow> updateForces_loop (springs sys) (masses sys);
     Some (sys\<lparr>masses := ms\<rparr>)
   }"

definition applyForces_body :: "float \<Rightarrow> Mass \<Rightarrow> Mass" where
  "applyForces_body dt mm =
     (if \<not> isFixed mm then
        let mm1 = mm\<lparr>velocity := vadd (velocity mm) (scale (dt / m mm) (forcesApplied mm))\<rparr>
        in mm1\<lparr>position := vadd (position mm1) (scale dt (velocity mm1))\<rparr>
      else mm)"

definition applyForces :: "float \<Rightarrow> System \<Rightarrow> System" where
  "applyForces dt sys = sys\<lparr>masses := map (applyForces_body dt) (masses sys)\<rparr>"

definition process :: "float \<Rightarrow> System \<Rightarrow> System option" where
  "process dt sys = do {
     sys1 \<leftarrow> updateForces (forcesZero sys);
     Some (applyForces dt sys1)
   }"

definition displayMass :: "(float \<Rightarrow> string) \<Rightarrow> nat \<Rightarrow> System \<Rightarrow> string \<Rightarrow> string option" where
  "displayMass shw n sys os =
     (if n < length (masses sys) then Some (put_Mass shw os (masses sys ! n)) else None)"

text \<open>The caller's loop: \<open>n\<close> composite steps in a row.\<close>

fun steps :: "nat \<Rightarrow> float \<Rightarrow> System \<Rightarrow> System option" where
  "steps 0 dt sys = Some sys"
| "steps (Suc n) dt sys = do {
     sys' \<leftarrow> process dt sys;
     steps n dt sys'
   }"

section \<open>Well-formed wiring\<close>

text \<open>
  A pointer is valid when it addresses an element of the mass collection; a System is
  wired when both endpoints of each of its springs are valid.
\<close>

fun valid_ptr :: "Mass list \<Rightarrow> Mass_ptr \<Rightarrow> bool" where
  "valid_ptr ms Null = False"
| "valid_ptr ms (Elem i) = (i < length ms)"

definition wired_spring :: "Mass list \<Rightarrow> Spring \<Rightarrow> bool" where
  "wired_spring ms s = (valid_ptr ms (mass1 s) \<and> valid_ptr ms (mass2 s))"

definition wired :: "System \<Rightarrow> bool" where
  "wired sys = list_all (wired_spring (masses sys)) (springs sys)"

section \<open>The scenario "One spring, one moving mass"\<close>

text \<open>
  The first entry of the source's table of tests: a fixed mass at \<open>(0, 0)\<close>, a free mass
  of mass 3 at \<open>(0, -3)\<close>, one spring with \<open>k = 3\<close> and \<open>l = 2\<close> from mass 0 to mass 1,
  and \<open>dt = 0.1\<close>.  The arguments are the indeterminate initial contents of the two
  \<^verbatim>\<open>forcesApplied\<close> fields.
\<close>

definition test1_masses :: "Vector2f \<Rightarrow> Vector2f \<Rightarrow> Mass list" where
  "test1_masses j0 j1 =
     [Mass_xy j0 (Fin 0) (Fin 0), Mass_xym j1 (Fin 0) (Fin (- 3)) (Fin 3)]"

definition test1_springs :: "Spring list" where
  "test1_springs = [\<lparr>k = Fin 3, l = Fin 2, mass1 = Null, mass2 = Null\<rparr>]"

definition test1_connectivity :: Connectivity where
  "test1_connectivity = [(0, (0, 1))]"

definition test1_dt :: float where
  "test1_dt = Fin (1 / 10)"

text \<open>The spring once the constructor has wired it, and the System it constructs.\<close>

definition test1_spring :: Spring where
  "test1_spring = \<lparr>k = Fin 3, l = Fin 2, mass1 = Elem 0, mass2 = Elem 1\<rparr>"

definition test1_system :: "Vector2f \<Rightarrow> Vector2f \<Rightarrow> System" where
  "test1_system j0 j1 = \<lparr>masses = test1_masses j0 j1, springs = [test1_spring]\<rparr>"

text \<open>The state after force accumulation in the first step, and after the first step.\<close>

definition test1_accumulated :: System where
  "test1_accumulated =
     \<lparr>masses =
        [\<lparr>m = Fin 0, position = (Fin 0, Fin 0), velocity = (Fin 0, Fin 0),
          forcesApplied = (Fin 0, Fin (- 3)), isFixed = True\<rparr>,
         \<lparr>m = Fin 3, position = (Fin 0, Fin (- 3)), velocity = (Fin 0, Fin 0),
          forcesApplied = (Fin 0, Fin 3), isFixed = False\<rparr>],
      springs = [test1_spring]\<rparr>"

definition test1_after :: System where
  "test1_after =
     \<lparr>masses =
        [\<lparr>m = Fin 0, position = (Fin 0, Fin 0), velocity = (Fin 0, Fin 0),
          forcesApplied = (Fin 0, Fin (- 3)), isFixed = True\<rparr>,
         \<lparr>m = Fin 3, position = (Fin 0, Fin (- 299 / 100)), velocity = (Fin 0, Fin (1 / 10)),
          forcesApplied = (Fin 0, Fin 3), isFixed = False\<rparr>],
      springs = [test1_spring]\<rparr>"

section \<open>Two degenerate inputs\<close>

text \<open>
  Two free masses of mass 1 at the same place \<open>(0, 0)\<close>, joined by the spring above; and
  the state in which one step leaves them.
\<close>

definition coincident_system :: System where
  "coincident_system =
     \<lparr>masses = [Mass_xym Zero (Fin 0) (Fin 0) (Fin 1), Mass_xym Zero (Fin 0) (Fin 0) (Fin 1)],
      springs = [test1_spring]\<rparr>"

definition coincident_after :: System where
  "coincident_after =
     \<lparr>masses =
        [\<lparr>m = Fin 1, position = (NaN, NaN), velocity = (NaN, NaN),
          forcesApplied = (NaN, NaN), isFixed = False\<rparr>,
         \<lparr>m = Fin 1, position = (NaN, NaN), velocity = (NaN, NaN),
          forcesApplied = (NaN, NaN), isFixed = False\<rparr>],
      springs = [test1_spring]\<rparr>"

text \<open>
  A free mass of mass zero at \<open>(1, 2)\<close>, alone in a System without springs; and the
  state in which one step leaves it.
\<close>

definition massless :: Mass where
  "massless = Mass_xym Zero (Fin 1) (Fin 2) (Fin 0)"

definition massless_system :: System where
  "massless_system = \<lparr>masses = [massless], springs = []\<rparr>"

definition massless_after :: System where
  "massless_after =
     \<lparr>masses = [\<lparr>m = Fin 0, position = (NaN, NaN), velocity = (NaN, NaN),
                 forcesApplied = (Fin 0, Fin 0), isFixed = False\<rparr>],
      springs = []\<rparr>"

section \<open>Total momentum\<close>

text \<open>The sum over all masses of scalar mass times velocity, in the order of the masses.\<close>

fun vsum :: "Vector2f list \<Rightarrow> Vector2f" where
  "vsum [] = Zero"
| "vsum (v # vs) = vadd v (vsum vs)"

definition momentum :: "System \<Rightarrow> Vector2f" where
  "momentum sys = vsum (map (\<lambda>mm. scale (m mm) (velocity mm)) (masses sys))"

text \<open>
  The Systems on which the arithmetic of one step is the exact one: every mass is free,
  with a finite non-zero scalar mass and finite position and velocity; every spring has
  valid endpoints at two different positions, and finite \<open>k\<close> and \<open>l\<close>.
\<close>

definition fin_v :: "Vector2f \<Rightarrow> bool" where
  "fin_v v = (is_Fin (fst v) \<and> is_Fin (snd v))"

definition free_finite_mass :: "Mass \<Rightarrow> bool" where
  "free_finite_mass mm =
     (\<not> isFixed mm \<and> is_Fin (m mm) \<and> m mm \<noteq> Fin 0 \<and> fin_v (position mm) \<and> fin_v (velocity mm))"

definition apart_spring :: "Mass list \<Rightarrow> Spring \<Rightarrow> bool" where
  "apart_spring ms s =
     (wired_spring ms s \<and> is_Fin (k s) \<and> is_Fin (l s)
      \<and> map_option position (deref ms (mass1 s)) \<noteq> map_option position (deref ms (mass2 s)))"

text \<open>The real number a finite float stands for, and the coordinates of a vector as reals.\<close>

fun the_real :: "float \<Rightarrow> real" where
  "the_real (Fin a) = a"
| "the_real x = 0"

definition coord :: "bool \<Rightarrow> Vector2f \<Rightarrow> real" where
  "coord c v = the_real (if c then fst v else snd v)"

definition total_force :: "bool \<Rightarrow> Mass list \<Rightarrow> real" where
  "total_force c ms = sum_list (map (\<lambda>mm. coord c (forcesApplied mm)) ms)"

text \<open>Two free masses, of mass 1 at \<open>(0, 0)\<close> and of mass 3 at \<open>(0, -3)\<close>, joined by the spring above.\<close>

definition free_pair_system :: System where
  "free_pair_system =
     \<lparr>masses = [Mass_xym Zero (Fin 0) (Fin 0) (Fin 1), Mass_xym Zero (Fin 0) (Fin (- 3)) (Fin 3)],
      springs = [test1_spring]\<rparr>"

section \<open>Pointers and the frame of force accumulation\<close>

lemma deref_Some: "deref ms p = Some ma \<Longrightarrow> \<exists>i. p = Elem i \<and> i < length ms \<and> ma = ms ! i"
  by (cases p) (auto split: if_splits)

lemma store_Some: "store ms p v = Some ms' \<Longrightarrow> \<exists>i. p = Elem i \<and> i < length ms \<and> ms' = ms[i := v]"
  by (cases p) (auto split: if_splits)

lemma map_forcesZero_body_update:
  "map forcesZero_body (ms[i := (ms ! i)\<lparr>forcesApplied := F\<rparr>]) = map forcesZero_body ms"
proof -
  have "forcesZero_body ((ms ! i)\<lparr>forcesApplied := F\<rparr>) = forcesZero_body (ms ! i)"
    by (simp add: forcesZero_body_def)
  then show ?thesis
    by (cases "i < length ms") (simp_all add: map_update list_update_same_conv list_update_beyond)
qed

lemma updateForces_body_frame:
  assumes "updateForces_body s ms = Some ms'"
  shows "map forcesZero_body ms' = map forcesZero_body ms"
proof -
  from assms obtain f1 ma ms1 f2 mb where
    a: "deref ms (mass1 s) = Some ma"
    and s1: "store ms (mass1 s) (ma\<lparr>forcesApplied := vadd (forcesApplied ma) f1\<rparr>) = Some ms1"
    and b: "deref ms1 (mass2 s) = Some mb"
    and s2: "store ms1 (mass2 s) (mb\<lparr>forcesApplied := vsub (forcesApplied mb) f2\<rparr>) = Some ms'"
    by (auto simp: updateForces_body_def split: bind_splits)
  from a s1 have "map forcesZero_body ms1 = map forcesZero_body ms"
    by (auto dest!: deref_Some store_Some simp: map_forcesZero_body_update)
  moreover from b s2 have "map forcesZero_body ms' = map forcesZero_body ms1"
    by (auto dest!: deref_Some store_Some simp: map_forcesZero_body_update)
  ultimately show ?thesis by simp
qed

lemma updateForces_loop_frame:
  "updateForces_loop ss ms = Some ms' \<Longrightarrow> map forcesZero_body ms' = map forcesZero_body ms"
proof (induction ss arbitrary: ms)
  case Nil
  then show ?case by simp
next
  case (Cons s ss)
  then obtain ms1 where "updateForces_body s ms = Some ms1" "updateForces_loop ss ms1 = Some ms'"
    by (auto split: bind_splits)
  with Cons.IH [of ms1] updateForces_body_frame [of s ms ms1] show ?case
    by simp
qed

lemma updateForces_frame: "updateForces sys = Some sys' \<Longrightarrow> forcesZero sys' = forcesZero sys"
  by (auto simp: updateForces_def forcesZero_def split: bind_splits dest: updateForces_loop_frame)


lemma frame_length:
  "map forcesZero_body ms' = map forcesZero_body ms \<Longrightarrow> length ms' = length ms"
  by (rule map_eq_imp_length_eq)

lemma frame_nth:
  assumes "map forcesZero_body ms' = map forcesZero_body ms" and "i < length ms"
  shows "m (ms' ! i) = m (ms ! i)" and "position (ms' ! i) = position (ms ! i)"
    and "velocity (ms' ! i) = velocity (ms ! i)" and "isFixed (ms' ! i) = isFixed (ms ! i)"
proof -
  from assms(1) have len: "length ms' = length ms" by (rule frame_length)
  have "forcesZero_body (ms' ! i) = map forcesZero_body ms' ! i"
    using assms(2) len by simp
  also have "\<dots> = map forcesZero_body ms ! i"
    by (simp only: assms(1))
  also have "\<dots> = forcesZero_body (ms ! i)"
    using assms(2) by simp
  finally have e: "forcesZero_body (ms' ! i) = forcesZero_body (ms ! i)" .
  show "m (ms' ! i) = m (ms ! i)"
    using arg_cong [OF e, of m] by (simp add: forcesZero_body_def)
  show "position (ms' ! i) = position (ms ! i)"
    using arg_cong [OF e, of position] by (simp add: forcesZero_body_def)
  show "velocity (ms' ! i) = velocity (ms ! i)"
    using arg_cong [OF e, of velocity] by (simp add: forcesZero_body_def)
  show "isFixed (ms' ! i) = isFixed (ms ! i)"
    using arg_cong [OF e, of isFixed] by (simp add: forcesZero_body_def)
qed

lemma valid_ptr_Elem: "valid_ptr ms p \<Longrightarrow> \<exists>i. p = Elem i \<and> i < length ms"
  by (cases p) simp_all

lemma valid_ptr_length: "length ms' = length ms \<Longrightarrow> valid_ptr ms' p = valid_ptr ms p"
  by (cases p) simp_all

lemma wired_spring_length:
  "length ms' = length ms \<Longrightarrow> wired_spring ms' s = wired_spring ms s"
  unfolding wired_spring_def
  using valid_ptr_length [of ms' ms "mass1 s"] valid_ptr_length [of ms' ms "mass2 s"] by simp

lemma force_defined: "wired_spring ms s \<Longrightarrow> \<exists>f. force ms s = Some f"
  by (auto simp: wired_spring_def force_def Let_def dest!: valid_ptr_Elem)

lemma updateForces_body_defined:
  assumes "wired_spring ms s"
  shows "\<exists>ms'. updateForces_body s ms = Some ms'"
proof -
  from assms obtain i j where ij: "mass1 s = Elem i" "i < length ms" "mass2 s = Elem j" "j < length ms"
    by (auto simp: wired_spring_def dest!: valid_ptr_Elem)
  from assms obtain f1 where f1: "force ms s = Some f1"
    using force_defined by blast
  define ms1 where "ms1 = ms[i := (ms ! i)\<lparr>forcesApplied := vadd (forcesApplied (ms ! i)) f1\<rparr>]"
  have "wired_spring ms1 s"
    using assms wired_spring_length [of ms1 ms s] by (simp add: ms1_def)
  then obtain f2 where f2: "force ms1 s = Some f2"
    using force_defined by blast
  show ?thesis
    using ij f1 f2 by (simp add: updateForces_body_def ms1_def)
qed

lemma updateForces_loop_defined:
  "list_all (wired_spring ms) ss \<Longrightarrow> \<exists>ms'. updateForces_loop ss ms = Some ms'"
proof (induction ss arbitrary: ms)
  case Nil
  then show ?case by simp
next
  case (Cons s ss)
  then have "wired_spring ms s" by simp
  then obtain ms1 where b: "updateForces_body s ms = Some ms1"
    using updateForces_body_defined by blast
  then have "length ms1 = length ms"
    by (rule frame_length [OF updateForces_body_frame])
  then have "wired_spring ms1 = wired_spring ms"
    using wired_spring_length [of ms1 ms] by (simp add: fun_eq_iff)
  with Cons.prems have "list_all (wired_spring ms1) ss" by simp
  from Cons.IH [OF this] b show ?case by simp
qed

lemma forcesZero_simps:
  "springs (forcesZero sys) = springs sys"
  "length (masses (forcesZero sys)) = length (masses sys)"
  by (simp_all add: forcesZero_def)

lemma updateForces_defined: "wired sys \<Longrightarrow> \<exists>sys'. updateForces (forcesZero sys) = Some sys'"
proof -
  assume w: "wired sys"
  have e: "wired_spring (masses (forcesZero sys)) = wired_spring (masses sys)"
    using wired_spring_length [of "masses (forcesZero sys)" "masses sys"]
    by (simp add: fun_eq_iff forcesZero_simps)
  have "list_all (wired_spring (masses (forcesZero sys))) (springs (forcesZero sys))"
    using w unfolding wired_def e forcesZero_simps .
  from updateForces_loop_defined [OF this] show ?thesis
    by (auto simp: updateForces_def)
qed

lemma forcesZero_idem: "forcesZero (forcesZero sys) = forcesZero sys"
  by (simp add: forcesZero_def forcesZero_body_def comp_def)

lemma forcesZero_frame:
  "forcesZero sys' = forcesZero sys \<Longrightarrow> springs sys' = springs sys"
  "forcesZero sys' = forcesZero sys \<Longrightarrow> map forcesZero_body (masses sys') = map forcesZero_body (masses sys)"
proof -
  assume e: "forcesZero sys' = forcesZero sys"
  then have "springs (forcesZero sys') = springs (forcesZero sys)" by simp
  then show "springs sys' = springs sys" by (simp add: forcesZero_def)
  from e have "masses (forcesZero sys') = masses (forcesZero sys)" by simp
  then show "map forcesZero_body (masses sys') = map forcesZero_body (masses sys)"
    by (simp add: forcesZero_def)
qed

lemma applyForces_simps:
  "springs (applyForces dt sys) = springs sys"
  "length (masses (applyForces dt sys)) = length (masses sys)"
  "i < length (masses sys) \<Longrightarrow> masses (applyForces dt sys) ! i = applyForces_body dt (masses sys ! i)"
  by (simp_all add: applyForces_def)

lemma applyForces_body_simps:
  "m (applyForces_body dt mm) = m mm"
  "isFixed (applyForces_body dt mm) = isFixed mm"
  "forcesApplied (applyForces_body dt mm) = forcesApplied mm"
  "isFixed mm \<Longrightarrow> applyForces_body dt mm = mm"
  "\<not> isFixed mm \<Longrightarrow> velocity (applyForces_body dt mm) = vadd (velocity mm) (scale (dt / m mm) (forcesApplied mm))"
  "\<not> isFixed mm \<Longrightarrow> position (applyForces_body dt mm) = vadd (position mm) (scale dt (velocity (applyForces_body dt mm)))"
  by (simp_all add: applyForces_body_def Let_def)

text \<open>What one composite step does, in terms of the state after force accumulation.\<close>

lemma process_unfold:
  assumes "wired sys"
  shows "\<exists>sysF. updateForces (forcesZero sys) = Some sysF \<and> process dt sys = Some (applyForces dt sysF)
     \<and> springs sysF = springs sys \<and> map forcesZero_body (masses sysF) = map forcesZero_body (masses sys)"
proof -
  from updateForces_defined [OF assms] obtain sysF where u: "updateForces (forcesZero sys) = Some sysF"
    by blast
  from updateForces_frame [OF u] have e: "forcesZero sysF = forcesZero sys"
    by (simp add: forcesZero_idem)
  have "process dt sys = Some (applyForces dt sysF)"
    using u by (simp add: process_def)
  moreover have "springs sysF = springs sys"
    using e by (rule forcesZero_frame(1))
  moreover have "map forcesZero_body (masses sysF) = map forcesZero_body (masses sys)"
    using e by (rule forcesZero_frame(2))
  ultimately show ?thesis
    using u by blast
qed

lemma process_changes:
  assumes "wired sys"
  shows "\<exists>sys'. process dt sys = Some sys' \<and> springs sys' = springs sys
     \<and> length (masses sys') = length (masses sys)
     \<and> (\<forall>i<length (masses sys).
           m (masses sys' ! i) = m (masses sys ! i)
         \<and> isFixed (masses sys' ! i) = isFixed (masses sys ! i)
         \<and> (isFixed (masses sys ! i) \<longrightarrow>
              position (masses sys' ! i) = position (masses sys ! i)
            \<and> velocity (masses sys' ! i) = velocity (masses sys ! i)))"
proof -
  from process_unfold [OF assms, of dt] obtain sysF where
    p: "process dt sys = Some (applyForces dt sysF)" and s: "springs sysF = springs sys"
    and f: "map forcesZero_body (masses sysF) = map forcesZero_body (masses sys)"
    by blast
  have len: "length (masses sysF) = length (masses sys)"
    using f by (rule frame_length)
  have "m (masses (applyForces dt sysF) ! i) = m (masses sys ! i)
      \<and> isFixed (masses (applyForces dt sysF) ! i) = isFixed (masses sys ! i)
      \<and> (isFixed (masses sys ! i) \<longrightarrow>
              position (masses (applyForces dt sysF) ! i) = position (masses sys ! i)
            \<and> velocity (masses (applyForces dt sysF) ! i) = velocity (masses sys ! i))"
    if "i < length (masses sys)" for i
    using that len frame_nth [OF f that]
    by (simp add: applyForces_simps applyForces_body_simps)
  with p s len show ?thesis
    by (simp add: applyForces_simps)
qed

lemma wired_cong:
  assumes "springs sys' = springs sys" and "length (masses sys') = length (masses sys)"
  shows "wired sys' = wired sys"
proof -
  have "wired_spring (masses sys') = wired_spring (masses sys)"
    using wired_spring_length [OF assms(2)] by (simp add: fun_eq_iff)
  then show ?thesis
    by (simp only: wired_def assms(1))
qed

lemma process_preserves:
  assumes "wired sys"
  shows "\<exists>sys'. process dt sys = Some sys' \<and> wired sys' \<and> springs sys' = springs sys
     \<and> length (masses sys') = length (masses sys)
     \<and> (\<forall>i<length (masses sys).
           m (masses sys' ! i) = m (masses sys ! i)
         \<and> isFixed (masses sys' ! i) = isFixed (masses sys ! i)
         \<and> (isFixed (masses sys ! i) \<longrightarrow>
              position (masses sys' ! i) = position (masses sys ! i)
            \<and> velocity (masses sys' ! i) = velocity (masses sys ! i)))"
proof -
  from process_changes [OF assms, of dt] obtain sys' where
    p: "process dt sys = Some sys'" and s: "springs sys' = springs sys"
    and n: "length (masses sys') = length (masses sys)"
    and r: "\<forall>i<length (masses sys).
           m (masses sys' ! i) = m (masses sys ! i)
         \<and> isFixed (masses sys' ! i) = isFixed (masses sys ! i)
         \<and> (isFixed (masses sys ! i) \<longrightarrow>
              position (masses sys' ! i) = position (masses sys ! i)
            \<and> velocity (masses sys' ! i) = velocity (masses sys ! i))"
    by blast
  from wired_cong [OF s n] assms have "wired sys'" by simp
  with p s n r show ?thesis by blast
qed

section \<open>The composite step\<close>

lemma test1_system_wired: "wired (test1_system j0 j1)"
  by (simp add: wired_def wired_spring_def test1_system_def test1_spring_def test1_masses_def)

text \<open>
  C10.  The composite step changes only the accumulated forces, and the velocity and the
  position of the masses that are not fixed.  On every wired System it returns, and the
  result has the same springs (so the same number of springs, the same \<open>k\<close> and \<open>l\<close> and
  the same two endpoints for each), the same number of masses, and for each mass the same
  scalar mass and the same fixed flag; a fixed mass also keeps its position and velocity.
\<close>

theorem process_frame:
  assumes "wired sys"
  shows "\<exists>sys'. process dt sys = Some sys' \<and> springs sys' = springs sys
     \<and> length (masses sys') = length (masses sys)
     \<and> (\<forall>i<length (masses sys).
           m (masses sys' ! i) = m (masses sys ! i)
         \<and> isFixed (masses sys' ! i) = isFixed (masses sys ! i)
         \<and> (isFixed (masses sys ! i) \<longrightarrow>
              position (masses sys' ! i) = position (masses sys ! i)
            \<and> velocity (masses sys' ! i) = velocity (masses sys ! i)))"
  using process_changes [OF assms] .

theorem process_frame_witness:
  "wired (test1_system Zero Zero) \<and>
   (\<exists>sys'. process test1_dt (test1_system Zero Zero) = Some sys'
     \<and> springs sys' = springs (test1_system Zero Zero)
     \<and> length (masses sys') = length (masses (test1_system Zero Zero))
     \<and> (\<forall>i<length (masses (test1_system Zero Zero)).
           m (masses sys' ! i) = m (masses (test1_system Zero Zero) ! i)
         \<and> isFixed (masses sys' ! i) = isFixed (masses (test1_system Zero Zero) ! i)
         \<and> (isFixed (masses (test1_system Zero Zero) ! i) \<longrightarrow>
              position (masses sys' ! i) = position (masses (test1_system Zero Zero) ! i)
            \<and> velocity (masses sys' ! i) = velocity (masses (test1_system Zero Zero) ! i))))"
proof -
  have h: "wired (test1_system Zero Zero)"
    by (rule test1_system_wired)
  show ?thesis
    using h process_frame [OF h, of test1_dt] by (rule conjI)
qed

lemma steps_fixed:
  assumes "wired sys" and "i < length (masses sys)" and "isFixed (masses sys ! i)"
  shows "\<exists>sys'. steps n dt sys = Some sys'
     \<and> position (masses sys' ! i) = position (masses sys ! i)
     \<and> velocity (masses sys' ! i) = velocity (masses sys ! i)"
  using assms
proof (induction n arbitrary: sys)
  case 0
  then show ?case by simp
next
  case (Suc n)
  from process_preserves [OF Suc.prems(1), of dt] obtain sys1 where
    p: "process dt sys = Some sys1" and w: "wired sys1"
    and len: "length (masses sys1) = length (masses sys)"
    and r: "\<forall>i<length (masses sys).
           m (masses sys1 ! i) = m (masses sys ! i)
         \<and> isFixed (masses sys1 ! i) = isFixed (masses sys ! i)
         \<and> (isFixed (masses sys ! i) \<longrightarrow>
              position (masses sys1 ! i) = position (masses sys ! i)
            \<and> velocity (masses sys1 ! i) = velocity (masses sys ! i))"
    by blast
  from r Suc.prems(2,3) have fx: "isFixed (masses sys1 ! i)"
    and pv: "position (masses sys1 ! i) = position (masses sys ! i)"
      "velocity (masses sys1 ! i) = velocity (masses sys ! i)"
    by simp_all
  from Suc.prems(2) len have "i < length (masses sys1)" by simp
  from Suc.IH [OF w this fx] obtain sys' where
    "steps n dt sys1 = Some sys'"
    "position (masses sys' ! i) = position (masses sys1 ! i)"
    "velocity (masses sys' ! i) = velocity (masses sys1 ! i)"
    by blast
  with p pv show ?case by simp
qed

lemma updateForces_returns: "wired sys \<Longrightarrow> \<exists>sys'. updateForces sys = Some sys'"
  using updateForces_loop_defined [of "masses sys" "springs sys"]
  by (auto simp: wired_def updateForces_def)

text \<open>
  C5.  A fixed mass keeps the position and the velocity it has, exactly, through any
  number of composite steps: on a wired System the \<open>n\<close> steps return, and the fixed
  mass \<open>i\<close> has the position and velocity it started with.  (The constructor copies the
  masses it is given, so these are the values at construction.)  Nor does one of the three
  phases, taken alone, change them.
\<close>

theorem fixed_mass_invariance:
  assumes "wired sys" and "i < length (masses sys)" and "isFixed (masses sys ! i)"
  shows "(\<exists>sys'. steps n dt sys = Some sys'
        \<and> position (masses sys' ! i) = position (masses sys ! i)
        \<and> velocity (masses sys' ! i) = velocity (masses sys ! i))
     \<and> position (masses (forcesZero sys) ! i) = position (masses sys ! i)
     \<and> velocity (masses (forcesZero sys) ! i) = velocity (masses sys ! i)
     \<and> (\<exists>sysF. updateForces sys = Some sysF
        \<and> position (masses sysF ! i) = position (masses sys ! i)
        \<and> velocity (masses sysF ! i) = velocity (masses sys ! i))
     \<and> position (masses (applyForces dt sys) ! i) = position (masses sys ! i)
     \<and> velocity (masses (applyForces dt sys) ! i) = velocity (masses sys ! i)"
proof -
  have z: "position (masses (forcesZero sys) ! i) = position (masses sys ! i)"
    "velocity (masses (forcesZero sys) ! i) = velocity (masses sys ! i)"
    using assms(2) by (simp_all add: forcesZero_def forcesZero_body_def)
  from updateForces_returns [OF assms(1)] obtain sysF where u: "updateForces sys = Some sysF"
    by blast
  have fr: "map forcesZero_body (masses sysF) = map forcesZero_body (masses sys)"
    using updateForces_frame [OF u] by (rule forcesZero_frame(2))
  have "position (masses sysF ! i) = position (masses sys ! i)"
    "velocity (masses sysF ! i) = velocity (masses sys ! i)"
    using frame_nth(2,3) [OF fr assms(2)] by simp_all
  with u have f: "\<exists>sysF. updateForces sys = Some sysF
        \<and> position (masses sysF ! i) = position (masses sys ! i)
        \<and> velocity (masses sysF ! i) = velocity (masses sys ! i)"
    by blast
  have a: "position (masses (applyForces dt sys) ! i) = position (masses sys ! i)"
    "velocity (masses (applyForces dt sys) ! i) = velocity (masses sys ! i)"
    using assms(2,3) by (simp_all add: applyForces_simps applyForces_body_simps)
  from steps_fixed [OF assms] z f a show ?thesis
    by blast
qed

theorem fixed_mass_invariance_witness:
  "wired (test1_system Zero Zero) \<and> 0 < length (masses (test1_system Zero Zero))
   \<and> isFixed (masses (test1_system Zero Zero) ! 0)
   \<and> (\<exists>sys'. steps 1000 test1_dt (test1_system Zero Zero) = Some sys'
        \<and> position (masses sys' ! 0) = position (masses (test1_system Zero Zero) ! 0)
        \<and> velocity (masses sys' ! 0) = velocity (masses (test1_system Zero Zero) ! 0))"
proof -
  have h1: "wired (test1_system Zero Zero)"
    by (rule test1_system_wired)
  have h2: "0 < length (masses (test1_system Zero Zero))"
    by (simp add: test1_system_def test1_masses_def)
  have h3: "isFixed (masses (test1_system Zero Zero) ! 0)"
    by (simp add: test1_system_def test1_masses_def Mass_xy_def)
  from fixed_mass_invariance [OF h1 h2 h3, of 1000 test1_dt] h1 h2 h3
  show ?thesis by blast
qed

text \<open>
  C3.  Integration within one composite step.  On a wired System the step returns; the
  forces it integrates are those accumulated by \<open>updateForces\<close> after \<open>forcesZero\<close>, on
  masses that have their start-of-step positions before and after the accumulation.  A fixed mass keeps velocity and
  position.  For any other mass the velocity grows by \<open>(dt / m)\<close> times the accumulated
  force, and the position grows by \<open>dt\<close> times the velocity just updated.
\<close>

theorem integrate_semi_implicit:
  assumes "wired sys"
  shows "\<exists>sysF sys'. updateForces (forcesZero sys) = Some sysF \<and> process dt sys = Some sys'
     \<and> (\<forall>i<length (masses sys).
          position (masses (forcesZero sys) ! i) = position (masses sys ! i)
        \<and> position (masses sysF ! i) = position (masses sys ! i)
        \<and> (if isFixed (masses sys ! i)
           then velocity (masses sys' ! i) = velocity (masses sys ! i)
              \<and> position (masses sys' ! i) = position (masses sys ! i)
           else velocity (masses sys' ! i) =
                  vadd (velocity (masses sys ! i))
                    (scale (dt / m (masses sys ! i)) (forcesApplied (masses sysF ! i)))
              \<and> position (masses sys' ! i) =
                  vadd (position (masses sys ! i)) (scale dt (velocity (masses sys' ! i)))))"
proof -
  from process_unfold [OF assms, of dt] obtain sysF where
    u: "updateForces (forcesZero sys) = Some sysF"
    and p: "process dt sys = Some (applyForces dt sysF)"
    and f: "map forcesZero_body (masses sysF) = map forcesZero_body (masses sys)"
    by blast
  have len: "length (masses sysF) = length (masses sys)"
    using f by (rule frame_length)
  have "position (masses (forcesZero sys) ! i) = position (masses sys ! i)
        \<and> position (masses sysF ! i) = position (masses sys ! i)
        \<and> (if isFixed (masses sys ! i)
           then velocity (masses (applyForces dt sysF) ! i) = velocity (masses sys ! i)
              \<and> position (masses (applyForces dt sysF) ! i) = position (masses sys ! i)
           else velocity (masses (applyForces dt sysF) ! i) =
                  vadd (velocity (masses sys ! i))
                    (scale (dt / m (masses sys ! i)) (forcesApplied (masses sysF ! i)))
              \<and> position (masses (applyForces dt sysF) ! i) =
                  vadd (position (masses sys ! i))
                    (scale dt (velocity (masses (applyForces dt sysF) ! i))))"
    if "i < length (masses sys)" for i
    using that len frame_nth [OF f that]
    by (simp add: applyForces_simps applyForces_body_simps forcesZero_def forcesZero_body_def)
  with u p show ?thesis by blast
qed

theorem integrate_semi_implicit_witness:
  "wired (test1_system Zero Zero) \<and>
   (\<exists>sysF sys'. updateForces (forcesZero (test1_system Zero Zero)) = Some sysF
     \<and> process test1_dt (test1_system Zero Zero) = Some sys'
     \<and> (\<forall>i<length (masses (test1_system Zero Zero)).
          position (masses (forcesZero (test1_system Zero Zero)) ! i)
            = position (masses (test1_system Zero Zero) ! i)
        \<and> position (masses sysF ! i) = position (masses (test1_system Zero Zero) ! i)
        \<and> (if isFixed (masses (test1_system Zero Zero) ! i)
           then velocity (masses sys' ! i) = velocity (masses (test1_system Zero Zero) ! i)
              \<and> position (masses sys' ! i) = position (masses (test1_system Zero Zero) ! i)
           else velocity (masses sys' ! i) =
                  vadd (velocity (masses (test1_system Zero Zero) ! i))
                    (scale (test1_dt / m (masses (test1_system Zero Zero) ! i))
                       (forcesApplied (masses sysF ! i)))
              \<and> position (masses sys' ! i) =
                  vadd (position (masses (test1_system Zero Zero) ! i))
                    (scale test1_dt (velocity (masses sys' ! i))))))"
proof -
  have h: "wired (test1_system Zero Zero)"
    by (rule test1_system_wired)
  show ?thesis
    using h integrate_semi_implicit [OF h, of test1_dt] by (rule conjI)
qed

section \<open>Rendering a mass\<close>

text \<open>
  C9.  For a mass index \<open>n\<close> in range, \<open>displayMass\<close> appends to the stream exactly the
  four scalars position.x, position.y, velocity.x, velocity.y of the mass as it is now,
  in that order, separated by single spaces and followed by a newline; when the
  formatting of a float produces no newline, that is one line.
\<close>

theorem displayMass_line:
  assumes "n < length (masses sys)"
  shows "displayMass shw n sys os =
     Some (os @ shw (fst (position (masses sys ! n))) @ '' ''
              @ shw (snd (position (masses sys ! n))) @ '' ''
              @ shw (fst (velocity (masses sys ! n))) @ '' ''
              @ shw (snd (velocity (masses sys ! n))) @ [CHR 0x0A])
     \<and> ((\<forall>x. CHR 0x0A \<notin> set (shw x)) \<longrightarrow>
          (\<exists>line. displayMass shw n sys os = Some (os @ line @ [CHR 0x0A])
             \<and> CHR 0x0A \<notin> set line))"
  using assms by (simp add: displayMass_def put_Mass_def)

theorem displayMass_line_witness:
  "1 < length (masses (test1_system Zero Zero)) \<and> (\<forall>x. CHR 0x0A \<notin> set ((\<lambda>y. ''0'') x))
   \<and> displayMass (\<lambda>y. ''0'') 1 (test1_system Zero Zero) [] = Some (''0 0 0 0'' @ [CHR 0x0A])"
proof -
  have h: "1 < length (masses (test1_system Zero Zero))"
    by (simp add: test1_system_def test1_masses_def)
  from displayMass_line [OF h, of "\<lambda>y. ''0''" "[]"] h
  show ?thesis by simp
qed

section \<open>Force accumulation\<close>

text \<open>The force of a spring depends on the positions only, not on the accumulated forces.\<close>

lemma force_positions:
  assumes "length ms' = length ms" and "\<forall>e<length ms. position (ms' ! e) = position (ms ! e)"
  shows "force ms' s = force ms s"
proof (cases "wired_spring ms s")
  case True
  then obtain i j where "mass1 s = Elem i" "i < length ms" "mass2 s = Elem j" "j < length ms"
    by (auto simp: wired_spring_def dest!: valid_ptr_Elem)
  with assms show ?thesis
    by (simp add: force_def)
next
  case False
  then have "force ms s = None"
    by (cases "mass1 s"; cases "mass2 s") (auto simp: wired_spring_def force_def)
  moreover from False assms(1) have "force ms' s = None"
    by (cases "mass1 s"; cases "mass2 s") (auto simp: wired_spring_def force_def)
  ultimately show ?thesis by simp
qed

lemma force_update_forcesApplied:
  "force (ms[i := (ms ! i)\<lparr>forcesApplied := F\<rparr>]) s = force ms s"
proof (rule force_positions)
  show "length (ms[i := (ms ! i)\<lparr>forcesApplied := F\<rparr>]) = length ms" by simp
  show "\<forall>e<length ms. position (ms[i := (ms ! i)\<lparr>forcesApplied := F\<rparr>] ! e) = position (ms ! e)"
  proof (intro allI impI)
    fix e
    assume "e < length ms"
    then show "position (ms[i := (ms ! i)\<lparr>forcesApplied := F\<rparr>] ! e) = position (ms ! e)"
      by (cases "e = i") simp_all
  qed
qed

text \<open>One iteration of the loop over the springs, for a spring with valid endpoints.\<close>

lemma updateForces_body_eq:
  assumes "mass1 s = Elem i" and "mass2 s = Elem j" and "i < length ms" and "j < length ms"
  shows "\<exists>f ms1 ms2.
       f = (let d = vsub (position (ms ! j)) (position (ms ! i))
            in scale (k s * (norm_v d - l s)) (scale (Fin 1 / norm_v d) d))
     \<and> force ms s = Some f
     \<and> ms1 = ms[i := (ms ! i)\<lparr>forcesApplied := vadd (forcesApplied (ms ! i)) f\<rparr>]
     \<and> force ms1 s = Some f
     \<and> ms2 = ms1[j := (ms1 ! j)\<lparr>forcesApplied := vsub (forcesApplied (ms1 ! j)) f\<rparr>]
     \<and> updateForces_body s ms = Some ms2"
proof -
  define f where "f = (let d = vsub (position (ms ! j)) (position (ms ! i))
            in scale (k s * (norm_v d - l s)) (scale (Fin 1 / norm_v d) d))"
  define ms1 where "ms1 = ms[i := (ms ! i)\<lparr>forcesApplied := vadd (forcesApplied (ms ! i)) f\<rparr>]"
  define ms2 where "ms2 = ms1[j := (ms1 ! j)\<lparr>forcesApplied := vsub (forcesApplied (ms1 ! j)) f\<rparr>]"
  have f1: "force ms s = Some f"
    using assms by (simp add: force_def f_def Let_def)
  have f2: "force ms1 s = Some f"
    unfolding ms1_def force_update_forcesApplied by (rule f1)
  have len: "length ms1 = length ms"
    by (simp add: ms1_def)
  have b: "updateForces_body s ms = Some ms2"
    using assms f1 f2 len by (simp add: updateForces_body_def ms1_def [symmetric] ms2_def)
  with f_def ms1_def ms2_def f1 f2 show ?thesis
    by blast
qed

lemma updateForces_body_cases:
  assumes "updateForces_body s ms = Some ms'"
  obtains i j f where "mass1 s = Elem i" and "mass2 s = Elem j" and "i < length ms"
    and "j < length ms" and "force ms s = Some f"
    and "ms' = (ms[i := (ms ! i)\<lparr>forcesApplied := vadd (forcesApplied (ms ! i)) f\<rparr>])
             [j := ((ms[i := (ms ! i)\<lparr>forcesApplied := vadd (forcesApplied (ms ! i)) f\<rparr>]) ! j)
                \<lparr>forcesApplied := vsub (forcesApplied
                   ((ms[i := (ms ! i)\<lparr>forcesApplied := vadd (forcesApplied (ms ! i)) f\<rparr>]) ! j)) f\<rparr>]"
proof -
  from assms obtain ma where "deref ms (mass1 s) = Some ma"
    by (auto simp: updateForces_body_def split: bind_splits)
  then obtain i where i: "mass1 s = Elem i" "i < length ms"
    by (auto dest!: deref_Some)
  from assms obtain f0 where "force ms s = Some f0"
    by (auto simp: updateForces_body_def split: bind_splits)
  then obtain mb where "deref ms (mass2 s) = Some mb"
    by (auto simp: force_def split: bind_splits)
  then obtain j where j: "mass2 s = Elem j" "j < length ms"
    by (auto dest!: deref_Some)
  from updateForces_body_eq [OF i(1) j(1) i(2) j(2)] assms that [OF i(1) j(1) i(2) j(2)]
  show thesis by auto
qed

subsection \<open>The first step of the scenario\<close>

lemma sqrt_9: "sqrt 9 = 3"
  using real_sqrt_abs [of 3] by simp

lemma test1_ctor:
  "System_ctor (test1_masses j0 j1) test1_springs test1_connectivity = Some (test1_system j0 j1)"
  by (simp add: System_ctor_def test1_springs_def test1_connectivity_def test1_system_def
      test1_spring_def)

lemma test1_force:
  "force (masses (forcesZero (test1_system j0 j1))) test1_spring = Some (Fin 0, Fin (- 3))"
  by (simp add: force_def test1_spring_def forcesZero_def forcesZero_body_def test1_system_def
      test1_masses_def Mass_xy_def Mass_xym_def minus_float_def sqrt_9)

lemma test1_updateForces:
  "updateForces (forcesZero (test1_system j0 j1)) = Some test1_accumulated"
  by (simp add: updateForces_def updateForces_body_def force_def test1_accumulated_def
      test1_spring_def forcesZero_def forcesZero_body_def Zero_def test1_system_def
      test1_masses_def Mass_xy_def Mass_xym_def minus_float_def sqrt_9)

lemma test1_process: "process test1_dt (test1_system j0 j1) = Some test1_after"
  by (simp add: process_def test1_updateForces)
     (simp add: test1_accumulated_def test1_after_def applyForces_def applyForces_body_def
       test1_dt_def)

text \<open>
  C1, as the code has it.  In the scenario with the fixed mass at \<open>(0, 0)\<close>, the free mass
  of mass 3 at \<open>(0, -3)\<close>, the spring with \<open>k = 3\<close> and \<open>l = 2\<close> and \<open>dt = 0.1\<close>, one
  composite step after construction leaves on the free mass the accumulated force
  \<open>(0, 3)\<close>, the velocity \<open>(0, 0.1)\<close> and the position \<open>(0, -2.99)\<close>, whatever the
  \<^verbatim>\<open>forcesApplied\<close> fields held before.
\<close>

theorem regression_step:
  "System_ctor (test1_masses j0 j1) test1_springs test1_connectivity \<bind> process test1_dt
     = Some test1_after
   \<and> forcesApplied (masses test1_after ! 1) = (Fin 0, Fin 3)
   \<and> velocity (masses test1_after ! 1) = (Fin 0, Fin (1 / 10))
   \<and> position (masses test1_after ! 1) = (Fin 0, Fin (- 299 / 100))"
  by (simp add: test1_ctor test1_process) (simp add: test1_after_def)

text \<open>
  C1, as the claim states it, fails: after the one step the force on the free mass is not
  \<open>(0, -3)\<close>, its velocity is not \<open>(0, -3.1)\<close> and its position is not \<open>(0, -3.31)\<close>.
\<close>

theorem regression_step_counterexample:
  "System_ctor (test1_masses Zero Zero) test1_springs test1_connectivity \<bind> process test1_dt
     = Some test1_after
   \<and> forcesApplied (masses test1_after ! 1) \<noteq> (Fin 0, Fin (- 3))
   \<and> velocity (masses test1_after ! 1) \<noteq> (Fin 0, Fin (- 31 / 10))
   \<and> position (masses test1_after ! 1) \<noteq> (Fin 0, Fin (- 331 / 100))"
  by (simp add: test1_ctor test1_process) (simp add: test1_after_def)

text \<open>
  C2, as the code has it.  For a spring whose endpoints \<open>mass1\<close> and \<open>mass2\<close> address the
  masses \<open>i\<close> and \<open>j\<close>, one iteration of the accumulation loop evaluates the spring's
  force (along the normalised vector from \<open>mass1\<close> to \<open>mass2\<close>, scaled by
  \<open>k * (length - l)\<close>) twice, with the same result \<open>f\<close> both times; it adds \<open>f\<close> to the
  accumulated force of \<open>mass1\<close> and then subtracts \<open>f\<close> from the accumulated force of
  \<open>mass2\<close>; the loop goes on with the next spring.
\<close>

theorem updateForces_body_adds_to_mass1:
  assumes "mass1 s = Elem i" and "mass2 s = Elem j" and "i < length ms" and "j < length ms"
  shows "\<exists>f ms1 ms2.
       f = (let d = vsub (position (ms ! j)) (position (ms ! i))
            in scale (k s * (norm_v d - l s)) (scale (Fin 1 / norm_v d) d))
     \<and> force ms s = Some f
     \<and> ms1 = ms[i := (ms ! i)\<lparr>forcesApplied := vadd (forcesApplied (ms ! i)) f\<rparr>]
     \<and> force ms1 s = Some f
     \<and> ms2 = ms1[j := (ms1 ! j)\<lparr>forcesApplied := vsub (forcesApplied (ms1 ! j)) f\<rparr>]
     \<and> updateForces_body s ms = Some ms2
     \<and> updateForces_loop (s # ss) ms = updateForces_loop ss ms2"
proof -
  from updateForces_body_eq [OF assms] obtain f ms1 ms2 where
    r: "f = (let d = vsub (position (ms ! j)) (position (ms ! i))
            in scale (k s * (norm_v d - l s)) (scale (Fin 1 / norm_v d) d))"
      "force ms s = Some f"
      "ms1 = ms[i := (ms ! i)\<lparr>forcesApplied := vadd (forcesApplied (ms ! i)) f\<rparr>]"
      "force ms1 s = Some f"
      "ms2 = ms1[j := (ms1 ! j)\<lparr>forcesApplied := vsub (forcesApplied (ms1 ! j)) f\<rparr>]"
      "updateForces_body s ms = Some ms2"
    by blast
  from r(6) have "updateForces_loop (s # ss) ms = updateForces_loop ss ms2"
    by simp
  with r show ?thesis
    by blast
qed

theorem updateForces_body_adds_to_mass1_witness:
  "mass1 test1_spring = Elem 0 \<and> mass2 test1_spring = Elem 1
   \<and> 0 < length (masses (forcesZero (test1_system Zero Zero)))
   \<and> 1 < length (masses (forcesZero (test1_system Zero Zero)))
   \<and> updateForces_body test1_spring (masses (forcesZero (test1_system Zero Zero)))
       = Some (masses test1_accumulated)"
proof -
  have h: "mass1 test1_spring = Elem 0" "mass2 test1_spring = Elem 1"
    "0 < length (masses (forcesZero (test1_system Zero Zero)))"
    "1 < length (masses (forcesZero (test1_system Zero Zero)))"
    by (simp_all add: test1_spring_def forcesZero_def test1_system_def test1_masses_def)
  from updateForces_body_adds_to_mass1 [OF h, of "[]"] obtain f ms1 ms2 where
    "f = (let d = vsub (position (masses (forcesZero (test1_system Zero Zero)) ! 1))
                    (position (masses (forcesZero (test1_system Zero Zero)) ! 0))
            in scale (k test1_spring * (norm_v d - l test1_spring)) (scale (Fin 1 / norm_v d) d))"
    "ms1 = (masses (forcesZero (test1_system Zero Zero)))
        [0 := (masses (forcesZero (test1_system Zero Zero)) ! 0)
           \<lparr>forcesApplied := vadd (forcesApplied (masses (forcesZero (test1_system Zero Zero)) ! 0)) f\<rparr>]"
    "ms2 = ms1[1 := (ms1 ! 1)\<lparr>forcesApplied := vsub (forcesApplied (ms1 ! 1)) f\<rparr>]"
    "updateForces_body test1_spring (masses (forcesZero (test1_system Zero Zero))) = Some ms2"
    by blast
  then have "updateForces_body test1_spring (masses (forcesZero (test1_system Zero Zero)))
       = Some (masses test1_accumulated)"
    by (simp add: test1_spring_def forcesZero_def forcesZero_body_def Zero_def test1_system_def
      test1_masses_def Mass_xy_def Mass_xym_def minus_float_def sqrt_9 test1_accumulated_def)
  with h show ?thesis by simp
qed

text \<open>
  C2, as the claim states it, fails in the scenario: the spring's force is \<open>(0, -3)\<close>;
  after accumulation from zero, the force of mass 1 (the spring's \<open>mass2\<close>) is not zero
  plus that force, and the force of mass 0 (the spring's \<open>mass1\<close>) is not zero minus it.
\<close>

theorem accumulation_counterexample:
  "force (masses (forcesZero (test1_system Zero Zero))) test1_spring = Some (Fin 0, Fin (- 3))
   \<and> updateForces (forcesZero (test1_system Zero Zero)) = Some test1_accumulated
   \<and> forcesApplied (masses test1_accumulated ! 1) \<noteq> vadd Zero (Fin 0, Fin (- 3))
   \<and> forcesApplied (masses test1_accumulated ! 0) \<noteq> vsub Zero (Fin 0, Fin (- 3))"
  by (simp add: test1_force test1_updateForces)
     (simp add: test1_accumulated_def Zero_def minus_float_def)

section \<open>Construction\<close>

lemma wire_result:
  assumes "\<forall>e\<in>set conn. fst e < length ss" and "distinct (map fst conn)"
  shows "\<exists>ss'. wire conn ss = Some ss' \<and> length ss' = length ss
     \<and> (\<forall>c i j. (c, (i, j)) \<in> set conn \<longrightarrow>
           ss' ! c = (ss ! c)\<lparr>mass1 := Elem i, mass2 := Elem j\<rparr>)
     \<and> (\<forall>c<length ss. c \<notin> fst ` set conn \<longrightarrow> ss' ! c = ss ! c)"
  using assms
proof (induction conn arbitrary: ss)
  case Nil
  then show ?case by simp
next
  case (Cons e conn)
  obtain c0 i0 j0 where e: "e = (c0, (i0, j0))"
    by (cases e) auto
  define ss1 where "ss1 = ss[c0 := (ss ! c0)\<lparr>mass1 := Elem i0, mass2 := Elem j0\<rparr>]"
  from Cons.prems e have c0: "c0 < length ss" and notin: "c0 \<notin> fst ` set conn"
    and d: "distinct (map fst conn)"
    by auto
  have len1: "length ss1 = length ss"
    by (simp add: ss1_def)
  from Cons.prems(1) len1 have "\<forall>e\<in>set conn. fst e < length ss1"
    by simp
  from Cons.IH [OF this d] obtain ss' where
    w: "wire conn ss1 = Some ss'" and len: "length ss' = length ss1"
    and listed: "\<And>c i j. (c, (i, j)) \<in> set conn \<Longrightarrow>
           ss' ! c = (ss1 ! c)\<lparr>mass1 := Elem i, mass2 := Elem j\<rparr>"
    and others: "\<And>c. c < length ss1 \<Longrightarrow> c \<notin> fst ` set conn \<Longrightarrow> ss' ! c = ss1 ! c"
    by blast
  have "wire (e # conn) ss = Some ss'"
    using w c0 by (simp add: e ss1_def)
  moreover have "length ss' = length ss"
    using len len1 by simp
  moreover have "ss' ! c = (ss ! c)\<lparr>mass1 := Elem i, mass2 := Elem j\<rparr>"
    if "(c, (i, j)) \<in> set (e # conn)" for c i j
  proof (cases "(c, (i, j)) = e")
    case True
    with e have "c = c0" "i = i0" "j = j0" by simp_all
    with others [of c0] c0 len1 notin show ?thesis
      by (simp add: ss1_def)
  next
    case False
    with that have m: "(c, (i, j)) \<in> set conn" by simp
    then have "c \<in> fst ` set conn" by force
    with notin have "c \<noteq> c0" by auto
    with listed [OF m] show ?thesis
      by (simp add: ss1_def)
  qed
  moreover have "ss' ! c = ss ! c" if "c < length ss" "c \<notin> fst ` set (e # conn)" for c
  proof -
    from that e have "c \<noteq> c0" "c \<notin> fst ` set conn" by auto
    with others [of c] that(1) len1 show ?thesis
      by (simp add: ss1_def)
  qed
  ultimately show ?case by blast
qed

text \<open>
  C4, as the code has it.  The constructor checks nothing.  When the spring indices of
  the connectivity are distinct and in range, it returns a System that holds the given
  masses and as many springs as given; the spring \<open>c\<close> of an entry \<open>(c, (i, j))\<close> gets
  the addresses of the masses \<open>i\<close> and \<open>j\<close> as its endpoints, whether or not such masses
  exist, and the other springs are as given.  If moreover the connectivity lists each
  spring and each mass index is in range, the System is wired.
\<close>

theorem System_ctor_unchecked:
  assumes "\<forall>e\<in>set conn. fst e < length ss" and "distinct (map fst conn)"
  shows "\<exists>sys. System_ctor ms ss conn = Some sys \<and> masses sys = ms
     \<and> length (springs sys) = length ss
     \<and> (\<forall>c i j. (c, (i, j)) \<in> set conn \<longrightarrow>
           springs sys ! c = (ss ! c)\<lparr>mass1 := Elem i, mass2 := Elem j\<rparr>)
     \<and> (\<forall>c<length ss. c \<notin> fst ` set conn \<longrightarrow> springs sys ! c = ss ! c)
     \<and> (fst ` set conn = {..<length ss}
          \<and> (\<forall>e\<in>set conn. fst (snd e) < length ms \<and> snd (snd e) < length ms)
         \<longrightarrow> wired sys)"
proof -
  from wire_result [OF assms] obtain ss' where
    w: "wire conn ss = Some ss'" and len: "length ss' = length ss"
    and listed: "\<And>c i j. (c, (i, j)) \<in> set conn \<Longrightarrow>
           ss' ! c = (ss ! c)\<lparr>mass1 := Elem i, mass2 := Elem j\<rparr>"
    and others: "\<And>c. c < length ss \<Longrightarrow> c \<notin> fst ` set conn \<Longrightarrow> ss' ! c = ss ! c"
    by blast
  have "wired \<lparr>masses = ms, springs = ss'\<rparr>"
    if cover: "fst ` set conn = {..<length ss}"
      and inr: "\<forall>e\<in>set conn. fst (snd e) < length ms \<and> snd (snd e) < length ms"
  proof -
    have "wired_spring ms (ss' ! c)" if "c < length ss'" for c
    proof -
      from that len cover have "c \<in> fst ` set conn" by simp
      then obtain i j where m: "(c, (i, j)) \<in> set conn" by force
      with inr have "i < length ms" "j < length ms" by force+
      with listed [OF m] show ?thesis
        by (simp add: wired_spring_def)
    qed
    then show ?thesis
      by (simp add: wired_def list_all_length)
  qed
  with w len listed others show ?thesis
    by (simp add: System_ctor_def)
qed

theorem System_ctor_unchecked_witness:
  "list_all (\<lambda>e. fst e < length test1_springs) test1_connectivity
   \<and> distinct (map fst test1_connectivity)
   \<and> fst ` set test1_connectivity = {..<length test1_springs}
   \<and> list_all (\<lambda>e. fst (snd e) < length (test1_masses Zero Zero)
                    \<and> snd (snd e) < length (test1_masses Zero Zero)) test1_connectivity
   \<and> (\<exists>sys. System_ctor (test1_masses Zero Zero) test1_springs test1_connectivity = Some sys
         \<and> masses sys = test1_masses Zero Zero \<and> wired sys)"
proof -
  have h1: "\<forall>e\<in>set test1_connectivity. fst e < length test1_springs"
    by (simp add: test1_connectivity_def test1_springs_def)
  have h2: "distinct (map fst test1_connectivity)"
    by (simp add: test1_connectivity_def)
  have h3: "fst ` set test1_connectivity = {..<length test1_springs}"
    by (auto simp: test1_connectivity_def test1_springs_def)
  have h4: "\<forall>e\<in>set test1_connectivity.
         fst (snd e) < length (test1_masses Zero Zero) \<and> snd (snd e) < length (test1_masses Zero Zero)"
    by (simp add: test1_connectivity_def test1_masses_def)
  from System_ctor_unchecked [OF h1 h2, of "test1_masses Zero Zero"] h3 h4
  have "\<exists>sys. System_ctor (test1_masses Zero Zero) test1_springs test1_connectivity = Some sys
         \<and> masses sys = test1_masses Zero Zero \<and> wired sys"
    by blast
  with h1 h2 h3 h4 show ?thesis by (simp add: list_all_iff)
qed

text \<open>
  C4, as the claim states it, fails: with two masses and the connectivity entry
  \<open>(0, (0, 5))\<close>, the constructor returns a System whose spring 0 is wired to the
  address of a mass 5 that does not exist.
\<close>

theorem System_ctor_counterexample:
  "System_ctor (test1_masses Zero Zero) test1_springs [(0, (0, 5))]
     = Some \<lparr>masses = test1_masses Zero Zero,
             springs = [\<lparr>k = Fin 3, l = Fin 2, mass1 = Elem 0, mass2 = Elem 5\<rparr>]\<rparr>
   \<and> \<not> 5 < length (test1_masses Zero Zero)"
  by (simp add: System_ctor_def test1_springs_def test1_masses_def)

section \<open>Degenerate inputs\<close>

subsection \<open>Non-finite values\<close>

lemma times_NaN [simp]: "x * NaN = NaN"
  by (cases x) simp_all

lemma plus_NaN [simp]: "x + NaN = NaN"
  by (cases x) simp_all

lemma vadd_NaN [simp]: "vadd (NaN, NaN) v = (NaN, NaN)" "vadd v (NaN, NaN) = (NaN, NaN)"
  by (cases v; simp)+

lemma vsub_NaN [simp]: "vsub (NaN, NaN) v = (NaN, NaN)" "vsub v (NaN, NaN) = (NaN, NaN)"
  by (cases v; simp add: minus_float_def)+

lemma scale_NaN [simp]: "scale c (NaN, NaN) = (NaN, NaN)"
  by simp

lemma minus_self: "is_Fin a \<Longrightarrow> a - a = Fin 0"
  by (cases a) (simp_all add: minus_float_def)

lemma divide_zero_not_Fin: "\<not> is_Fin (x / Fin 0)"
  by (cases x) simp_all

lemma times_not_Fin_left: "\<not> is_Fin c \<Longrightarrow> \<not> is_Fin (c * x)"
  by (cases c; cases x) simp_all

lemma times_not_Fin_right: "\<not> is_Fin x \<Longrightarrow> \<not> is_Fin (c * x)"
  by (cases c; cases x) simp_all

lemma plus_not_Fin_right: "\<not> is_Fin y \<Longrightarrow> \<not> is_Fin (x + y)"
  by (cases x; cases y) simp_all

subsection \<open>Coincident endpoints\<close>

lemma force_coincident:
  assumes "mass1 s = Elem i" and "mass2 s = Elem j" and "i < length ms" and "j < length ms"
    and "position (ms ! i) = position (ms ! j)"
    and "is_Fin (fst (position (ms ! i)))" and "is_Fin (snd (position (ms ! i)))"
  shows "force ms s = Some (NaN, NaN)"
proof -
  obtain a b where p: "position (ms ! j) = (a, b)"
    by (cases "position (ms ! j)")
  with assms have "vsub (position (ms ! j)) (position (ms ! i)) = (Fin 0, Fin 0)"
    by (simp add: minus_self)
  with assms show ?thesis
    by (simp add: force_def)
qed

lemma updateForces_body_NaN_sticky:
  assumes "updateForces_body s ms = Some ms'" and "e < length ms"
    and "forcesApplied (ms ! e) = (NaN, NaN)"
  shows "forcesApplied (ms' ! e) = (NaN, NaN)"
  using assms(1)
proof (rule updateForces_body_cases)
  fix i j f
  assume "i < length ms" "j < length ms"
    and "ms' = (ms[i := (ms ! i)\<lparr>forcesApplied := vadd (forcesApplied (ms ! i)) f\<rparr>])
             [j := ((ms[i := (ms ! i)\<lparr>forcesApplied := vadd (forcesApplied (ms ! i)) f\<rparr>]) ! j)
                \<lparr>forcesApplied := vsub (forcesApplied
                   ((ms[i := (ms ! i)\<lparr>forcesApplied := vadd (forcesApplied (ms ! i)) f\<rparr>]) ! j)) f\<rparr>]"
  with assms(2,3) show ?thesis
    by (cases "e = j"; cases "e = i") simp_all
qed

lemma updateForces_body_NaN_hit:
  assumes "updateForces_body s ms = Some ms'" and "force ms s = Some (NaN, NaN)"
    and "mass1 s = Elem i" and "mass2 s = Elem j"
  shows "forcesApplied (ms' ! i) = (NaN, NaN)" and "forcesApplied (ms' ! j) = (NaN, NaN)"
proof -
  from assms(1) have "forcesApplied (ms' ! i) = (NaN, NaN) \<and> forcesApplied (ms' ! j) = (NaN, NaN)"
  proof (rule updateForces_body_cases)
    fix i' j' f
    assume "mass1 s = Elem i'" "mass2 s = Elem j'" "i' < length ms" "j' < length ms"
      "force ms s = Some f"
      and "ms' = (ms[i' := (ms ! i')\<lparr>forcesApplied := vadd (forcesApplied (ms ! i')) f\<rparr>])
             [j' := ((ms[i' := (ms ! i')\<lparr>forcesApplied := vadd (forcesApplied (ms ! i')) f\<rparr>]) ! j')
                \<lparr>forcesApplied := vsub (forcesApplied
                   ((ms[i' := (ms ! i')\<lparr>forcesApplied := vadd (forcesApplied (ms ! i')) f\<rparr>]) ! j')) f\<rparr>]"
    with assms(2-4) show ?thesis
      by (cases "i = j") simp_all
  qed
  then show "forcesApplied (ms' ! i) = (NaN, NaN)" and "forcesApplied (ms' ! j) = (NaN, NaN)"
    by simp_all
qed

lemma updateForces_loop_NaN_sticky:
  "updateForces_loop ss ms = Some ms' \<Longrightarrow> e < length ms \<Longrightarrow>
   forcesApplied (ms ! e) = (NaN, NaN) \<Longrightarrow> forcesApplied (ms' ! e) = (NaN, NaN)"
proof (induction ss arbitrary: ms)
  case Nil
  then show ?case by simp
next
  case (Cons s ss)
  then obtain ms1 where b: "updateForces_body s ms = Some ms1"
    and r: "updateForces_loop ss ms1 = Some ms'"
    by (auto split: bind_splits)
  from b have "length ms1 = length ms"
    by (rule frame_length [OF updateForces_body_frame])
  with Cons.prems(2) have "e < length ms1" by simp
  moreover from b Cons.prems(2,3) have "forcesApplied (ms1 ! e) = (NaN, NaN)"
    by (rule updateForces_body_NaN_sticky)
  ultimately show ?case
    using Cons.IH [OF r] by simp
qed

lemma updateForces_loop_NaN_hit:
  assumes "updateForces_loop ss ms = Some ms'" and "s \<in> set ss"
    and "mass1 s = Elem i" and "mass2 s = Elem j" and "i < length ms" and "j < length ms"
    and "position (ms ! i) = position (ms ! j)"
    and "is_Fin (fst (position (ms ! i)))" and "is_Fin (snd (position (ms ! i)))"
  shows "forcesApplied (ms' ! i) = (NaN, NaN) \<and> forcesApplied (ms' ! j) = (NaN, NaN)"
  using assms
proof (induction ss arbitrary: ms)
  case Nil
  then show ?case by simp
next
  case (Cons s0 ss)
  then obtain ms1 where b: "updateForces_body s0 ms = Some ms1"
    and r: "updateForces_loop ss ms1 = Some ms'"
    by (auto split: bind_splits)
  from b have fr: "map forcesZero_body ms1 = map forcesZero_body ms"
    by (rule updateForces_body_frame)
  then have len: "length ms1 = length ms"
    by (rule frame_length)
  from len Cons.prems(5,6) have ij: "i < length ms1" "j < length ms1"
    by simp_all
  show ?case
  proof (cases "s = s0")
    case True
    from Cons.prems have "force ms s = Some (NaN, NaN)"
      by (simp add: force_coincident)
    with b True Cons.prems(3,4)
    have "forcesApplied (ms1 ! i) = (NaN, NaN)" "forcesApplied (ms1 ! j) = (NaN, NaN)"
      using updateForces_body_NaN_hit [of s ms ms1 i j] by simp_all
    with r ij show ?thesis
      using updateForces_loop_NaN_sticky [of ss ms1 ms' i]
        updateForces_loop_NaN_sticky [of ss ms1 ms' j] by simp
  next
    case False
    with Cons.prems(2) have mem: "s \<in> set ss" by simp
    from frame_nth(2) [OF fr Cons.prems(5)] frame_nth(2) [OF fr Cons.prems(6)] Cons.prems(7,8,9)
    have "position (ms1 ! i) = position (ms1 ! j)" "is_Fin (fst (position (ms1 ! i)))"
      "is_Fin (snd (position (ms1 ! i)))"
      by simp_all
    with Cons.IH [OF r mem Cons.prems(3,4) ij] show ?thesis by simp
  qed
qed

lemma wired_spring_mem: "wired sys \<Longrightarrow> s \<in> set (springs sys) \<Longrightarrow> wired_spring (masses sys) s"
  by (simp add: wired_def list_all_iff)

text \<open>
  C7, as the code has it.  When the two endpoints of a spring of a wired System are at the
  same finite position, \<open>force\<close> reports nothing and has no fallback: it returns the
  vector \<open>(NaN, NaN)\<close>.  The composite step returns all the same, and leaves
  \<open>(NaN, NaN)\<close> in the accumulated force of both endpoints, and in the velocity and
  the position of each endpoint that is not fixed.
\<close>

theorem coincident_endpoints_NaN:
  assumes "wired sys" and "s \<in> set (springs sys)" and "mass1 s = Elem i" and "mass2 s = Elem j"
    and "position (masses sys ! i) = position (masses sys ! j)"
    and "is_Fin (fst (position (masses sys ! i)))" and "is_Fin (snd (position (masses sys ! i)))"
  shows "force (masses sys) s = Some (NaN, NaN)
     \<and> (\<exists>sys'. process dt sys = Some sys'
          \<and> (\<forall>e\<in>{i, j}. forcesApplied (masses sys' ! e) = (NaN, NaN)
                \<and> (\<not> isFixed (masses sys ! e) \<longrightarrow>
                      velocity (masses sys' ! e) = (NaN, NaN)
                    \<and> position (masses sys' ! e) = (NaN, NaN))))"
proof -
  from wired_spring_mem [OF assms(1,2)] assms(3,4)
  have ij: "i < length (masses sys)" "j < length (masses sys)"
    by (simp_all add: wired_spring_def)
  with assms have f: "force (masses sys) s = Some (NaN, NaN)"
    by (simp add: force_coincident)
  from process_unfold [OF assms(1), of dt] obtain sysF where
    u: "updateForces (forcesZero sys) = Some sysF"
    and p: "process dt sys = Some (applyForces dt sysF)"
    and fr: "map forcesZero_body (masses sysF) = map forcesZero_body (masses sys)"
    by blast
  have len: "length (masses sysF) = length (masses sys)"
    using fr by (rule frame_length)
  from u have loop: "updateForces_loop (springs sys) (map forcesZero_body (masses sys)) = Some (masses sysF)"
    by (auto simp: updateForces_def forcesZero_def split: bind_splits)
  have pz: "position (map forcesZero_body (masses sys) ! e) = position (masses sys ! e)"
    if "e < length (masses sys)" for e
    using that by (simp add: forcesZero_body_def)
  from updateForces_loop_NaN_hit [OF loop assms(2,3,4)] ij assms(5,6,7) pz [OF ij(1)] pz [OF ij(2)]
  have nan: "forcesApplied (masses sysF ! i) = (NaN, NaN)" "forcesApplied (masses sysF ! j) = (NaN, NaN)"
    by simp_all
  have "forcesApplied (masses (applyForces dt sysF) ! e) = (NaN, NaN)
      \<and> (\<not> isFixed (masses sys ! e) \<longrightarrow>
            velocity (masses (applyForces dt sysF) ! e) = (NaN, NaN)
          \<and> position (masses (applyForces dt sysF) ! e) = (NaN, NaN))"
    if "e < length (masses sys)" "forcesApplied (masses sysF ! e) = (NaN, NaN)" for e
    using that len frame_nth(4) [OF fr that(1)]
    by (simp add: applyForces_simps applyForces_body_simps)
  with ij nan have "\<forall>e\<in>{i, j}. forcesApplied (masses (applyForces dt sysF) ! e) = (NaN, NaN)
      \<and> (\<not> isFixed (masses sys ! e) \<longrightarrow>
            velocity (masses (applyForces dt sysF) ! e) = (NaN, NaN)
          \<and> position (masses (applyForces dt sysF) ! e) = (NaN, NaN))"
    by blast
  with f p show ?thesis by blast
qed

theorem coincident_endpoints_NaN_witness:
  "wired coincident_system \<and> test1_spring \<in> set (springs coincident_system)
   \<and> position (masses coincident_system ! 0) = position (masses coincident_system ! 1)
   \<and> is_Fin (fst (position (masses coincident_system ! 0)))
   \<and> is_Fin (snd (position (masses coincident_system ! 0)))
   \<and> force (masses coincident_system) test1_spring = Some (NaN, NaN)
   \<and> (\<exists>sys'. process test1_dt coincident_system = Some sys'
         \<and> velocity (masses sys' ! 1) = (NaN, NaN) \<and> position (masses sys' ! 1) = (NaN, NaN))"
proof -
  have h: "wired coincident_system" "test1_spring \<in> set (springs coincident_system)"
    "mass1 test1_spring = Elem 0" "mass2 test1_spring = Elem 1"
    "position (masses coincident_system ! 0) = position (masses coincident_system ! 1)"
    "is_Fin (fst (position (masses coincident_system ! 0)))"
    "is_Fin (snd (position (masses coincident_system ! 0)))"
    by (simp_all add: wired_def wired_spring_def coincident_system_def test1_spring_def
        Mass_xym_def)
  have "\<not> isFixed (masses coincident_system ! 1)"
    by (simp add: coincident_system_def Mass_xym_def)
  with coincident_endpoints_NaN [OF h, of test1_dt]
  have "force (masses coincident_system) test1_spring = Some (NaN, NaN)
   \<and> (\<exists>sys'. process test1_dt coincident_system = Some sys'
         \<and> velocity (masses sys' ! 1) = (NaN, NaN) \<and> position (masses sys' ! 1) = (NaN, NaN))"
    by blast
  with h show ?thesis by simp
qed

text \<open>
  C7, as the claim states it, fails: for two free masses at \<open>(0, 0)\<close> joined by a spring,
  the force is \<open>(NaN, NaN)\<close> and one step returns a state whose positions, velocities
  and forces are all NaN.
\<close>

theorem coincident_endpoints_counterexample:
  "force (masses coincident_system) test1_spring = Some (NaN, NaN)
   \<and> process test1_dt coincident_system = Some coincident_after
   \<and> position (masses coincident_after ! 0) = (NaN, NaN)
   \<and> velocity (masses coincident_after ! 0) = (NaN, NaN)
   \<and> position (masses coincident_after ! 1) = (NaN, NaN)
   \<and> velocity (masses coincident_after ! 1) = (NaN, NaN)"
  by (simp add: process_def forcesZero_def forcesZero_body_def updateForces_def
      updateForces_body_def force_def coincident_system_def coincident_after_def
      test1_spring_def Mass_xym_def Zero_def minus_float_def applyForces_def
      applyForces_body_def test1_dt_def)

subsection \<open>A free mass of mass zero\<close>

text \<open>
  C8, as the code has it.  Nothing validates the scalar mass of a free mass: the
  constructor of Mass stores any value, zero and negative ones too, and the constructor
  of System accepts such a mass.  Integration divides \<open>dt\<close> by the stored mass; for a
  mass of zero, no component of the updated velocity and position is finite, whatever
  \<open>dt\<close> and the accumulated force are.
\<close>

theorem free_mass_not_validated:
  "m (Mass_xym junk x y mm) = mm \<and> \<not> isFixed (Mass_xym junk x y mm)
   \<and> System_ctor (Mass_xym junk x y mm # ms) [] []
       = Some \<lparr>masses = Mass_xym junk x y mm # ms, springs = []\<rparr>
   \<and> velocity (applyForces_body dt (Mass_xym junk x y mm))
       = vadd (Fin 0, Fin 0) (scale (dt / mm) junk)
   \<and> \<not> is_Fin (fst (velocity (applyForces_body dt (Mass_xym junk x y (Fin 0)))))
   \<and> \<not> is_Fin (snd (velocity (applyForces_body dt (Mass_xym junk x y (Fin 0)))))
   \<and> \<not> is_Fin (fst (position (applyForces_body dt (Mass_xym junk x y (Fin 0)))))
   \<and> \<not> is_Fin (snd (position (applyForces_body dt (Mass_xym junk x y (Fin 0)))))"
proof -
  obtain j0 j1 where j: "junk = (j0, j1)"
    by (cases junk)
  have a: "\<not> is_Fin (Fin 0 + dt / Fin 0 * j0)" "\<not> is_Fin (Fin 0 + dt / Fin 0 * j1)"
    by (simp_all add: divide_zero_not_Fin times_not_Fin_left plus_not_Fin_right)
  then have "\<not> is_Fin (x + dt * (Fin 0 + dt / Fin 0 * j0))"
    "\<not> is_Fin (y + dt * (Fin 0 + dt / Fin 0 * j1))"
    by (simp_all add: times_not_Fin_right plus_not_Fin_right)
  with a show ?thesis
    by (simp add: Mass_xym_def System_ctor_def applyForces_body_def Let_def j)
qed

text \<open>
  C8, as the claim states it, fails: a free mass of mass zero is constructed, a System
  is constructed around it, and one step returns with its velocity and position NaN.
\<close>

theorem free_mass_not_validated_counterexample:
  "m massless = Fin 0 \<and> \<not> isFixed massless
   \<and> System_ctor [massless] [] [] = Some massless_system
   \<and> process test1_dt massless_system = Some massless_after
   \<and> position (masses massless_after ! 0) = (NaN, NaN)
   \<and> velocity (masses massless_after ! 0) = (NaN, NaN)"
  by (simp add: massless_def Mass_xym_def System_ctor_def massless_system_def
      massless_after_def process_def forcesZero_def forcesZero_body_def updateForces_def
      applyForces_def applyForces_body_def test1_dt_def Zero_def)

section \<open>Conservation of momentum\<close>

subsection \<open>Finite values\<close>

lemma is_Fin_E: "is_Fin x \<Longrightarrow> \<exists>a. x = Fin a"
  by (cases x) simp_all

lemma fin_v_E: "fin_v v \<Longrightarrow> \<exists>a b. v = (Fin a, Fin b)"
  by (cases v) (auto simp: fin_v_def dest!: is_Fin_E)

lemma fin_v_Fin [simp]: "fin_v (Fin a, Fin b)"
  by (simp add: fin_v_def)

lemma coord_Fin [simp]: "coord c (Fin a, Fin b) = (if c then a else b)"
  by (simp add: coord_def)

lemma fin_v_eqI:
  assumes "fin_v u" and "fin_v v" and "\<And>c. coord c u = coord c v"
  shows "u = v"
proof -
  from assms(1,2) obtain a b a' b' where "u = (Fin a, Fin b)" "v = (Fin a', Fin b')"
    by (auto dest!: fin_v_E)
  with assms(3) [of True] assms(3) [of False] show ?thesis by simp
qed

lemma vadd_fin: "fin_v u \<Longrightarrow> fin_v v \<Longrightarrow> fin_v (vadd u v) \<and> coord c (vadd u v) = coord c u + coord c v"
  by (auto dest!: fin_v_E)

lemma vsub_fin: "fin_v u \<Longrightarrow> fin_v v \<Longrightarrow> fin_v (vsub u v) \<and> coord c (vsub u v) = coord c u - coord c v"
  by (auto dest!: fin_v_E simp: minus_float_def)

lemma scale_fin:
  "is_Fin a \<Longrightarrow> fin_v v \<Longrightarrow> fin_v (scale a v) \<and> coord c (scale a v) = the_real a * coord c v"
  by (auto dest!: fin_v_E is_Fin_E)

lemma vsum_fin:
  "list_all fin_v vs \<Longrightarrow> fin_v (vsum vs) \<and> coord c (vsum vs) = sum_list (map (coord c) vs)"
proof (induction vs)
  case Nil
  then show ?case by (simp add: Zero_def)
next
  case (Cons v vs)
  then have "fin_v v" "fin_v (vsum vs)" "coord c (vsum vs) = sum_list (map (coord c) vs)"
    by simp_all
  with vadd_fin [of v "vsum vs" c] show ?case by simp
qed

lemma sum_list_map_update:
  fixes g :: "'a \<Rightarrow> real"
  shows "i < length xs \<Longrightarrow> sum_list (map g (xs[i := v])) = sum_list (map g xs) - g (xs ! i) + g v"
proof (induction xs arbitrary: i)
  case Nil
  then show ?case by simp
next
  case (Cons x xs)
  then show ?case by (cases i) simp_all
qed

lemma force_finite:
  assumes "apart_spring ms s" and "list_all (\<lambda>mm. fin_v (position mm)) ms"
  shows "\<exists>f. force ms s = Some f \<and> fin_v f"
proof -
  from assms(1) obtain i j where ij: "mass1 s = Elem i" "i < length ms" "mass2 s = Elem j" "j < length ms"
    by (auto simp: apart_spring_def wired_spring_def dest!: valid_ptr_Elem)
  with assms(1) have ne: "position (ms ! i) \<noteq> position (ms ! j)"
    by (auto simp: apart_spring_def)
  from assms(2) ij have "fin_v (position (ms ! i))" "fin_v (position (ms ! j))"
    by (simp_all add: list_all_length)
  then obtain a1 b1 a2 b2 where p: "position (ms ! i) = (Fin a1, Fin b1)" "position (ms ! j) = (Fin a2, Fin b2)"
    by (auto dest!: fin_v_E)
  from assms(1) obtain kk ll where kl: "k s = Fin kk" "l s = Fin ll"
    by (auto simp: apart_spring_def dest!: is_Fin_E)
  from ne p have "a2 - a1 \<noteq> 0 \<or> b2 - b1 \<noteq> 0" by auto
  then have "sqrt ((a2 - a1) * (a2 - a1) + (b2 - b1) * (b2 - b1)) \<noteq> 0"
    by (simp add: sum_squares_eq_zero_iff)
  moreover have "\<not> (a2 - a1) * (a2 - a1) + (b2 - b1) * (b2 - b1) < 0"
    by (simp add: not_sum_squares_lt_zero)
  ultimately show ?thesis
    using ij p kl by (auto simp: force_def minus_float_def)
qed

lemma list_all_update:
  "list_all P xs \<Longrightarrow> P v \<Longrightarrow> list_all P (xs[i := v])"
  using set_update_subset_insert [of xs i v] by (auto simp: list_all_iff)

lemma updateForces_body_total:
  assumes "apart_spring ms s" and "list_all (\<lambda>mm. fin_v (position mm)) ms"
    and "list_all (\<lambda>mm. fin_v (forcesApplied mm)) ms"
  shows "\<exists>ms'. updateForces_body s ms = Some ms'
     \<and> list_all (\<lambda>mm. fin_v (forcesApplied mm)) ms'
     \<and> total_force c ms' = total_force c ms"
proof -
  from assms(1) obtain i j where ij: "mass1 s = Elem i" "mass2 s = Elem j" "i < length ms" "j < length ms"
    by (auto simp: apart_spring_def wired_spring_def dest!: valid_ptr_Elem)
  from force_finite [OF assms(1,2)] obtain f where f: "force ms s = Some f" "fin_v f"
    by blast
  define ms1 where "ms1 = ms[i := (ms ! i)\<lparr>forcesApplied := vadd (forcesApplied (ms ! i)) f\<rparr>]"
  define ms2 where "ms2 = ms1[j := (ms1 ! j)\<lparr>forcesApplied := vsub (forcesApplied (ms1 ! j)) f\<rparr>]"
  from updateForces_body_eq [OF ij] f(1) have b: "updateForces_body s ms = Some ms2"
    by (simp add: ms1_def ms2_def)
  have len1: "length ms1 = length ms"
    by (simp add: ms1_def)
  from assms(3) ij(3) have fi: "fin_v (forcesApplied (ms ! i))"
    by (simp add: list_all_length)
  have a1: "list_all (\<lambda>mm. fin_v (forcesApplied mm)) ms1"
    unfolding ms1_def using assms(3) vadd_fin [OF fi f(2)]
    by (intro list_all_update) simp_all
  with ij(4) len1 have fj: "fin_v (forcesApplied (ms1 ! j))"
    by (simp add: list_all_length)
  have a2: "list_all (\<lambda>mm. fin_v (forcesApplied mm)) ms2"
    unfolding ms2_def using a1 vsub_fin [OF fj f(2)]
    by (intro list_all_update) simp_all
  have "total_force c ms1 = total_force c ms + coord c f"
    using ij(3) vadd_fin [OF fi f(2), of c]
    by (simp add: total_force_def ms1_def sum_list_map_update)
  moreover have "total_force c ms2 = total_force c ms1 - coord c f"
    using ij(4) len1 vsub_fin [OF fj f(2), of c]
    by (simp add: total_force_def ms2_def sum_list_map_update)
  ultimately have "total_force c ms2 = total_force c ms"
    by simp
  with b a2 show ?thesis by blast
qed

lemma apart_spring_frame:
  assumes "map forcesZero_body ms' = map forcesZero_body ms"
  shows "apart_spring ms' s = apart_spring ms s"
proof -
  from assms have len: "length ms' = length ms"
    by (rule frame_length)
  have w: "wired_spring ms' s = wired_spring ms s"
    using len by (rule wired_spring_length)
  show ?thesis
  proof (cases "wired_spring ms s")
    case True
    then obtain i j where ij: "mass1 s = Elem i" "i < length ms" "mass2 s = Elem j" "j < length ms"
      by (auto simp: wired_spring_def dest!: valid_ptr_Elem)
    with len frame_nth(2) [OF assms ij(2)] frame_nth(2) [OF assms ij(4)] w show ?thesis
      by (simp add: apart_spring_def)
  next
    case False
    with w show ?thesis by (simp add: apart_spring_def)
  qed
qed

lemma map_position_frame:
  assumes "map forcesZero_body ms' = map forcesZero_body ms"
  shows "map position ms' = map position ms"
proof -
  have "map position xs = map position (map forcesZero_body xs)" for xs
    by (simp add: forcesZero_body_def o_def)
  then have "map position ms' = map position (map forcesZero_body ms')"
    and "map position ms = map position (map forcesZero_body ms)"
    by blast+
  with assms show ?thesis by simp
qed

lemma updateForces_loop_total:
  assumes "list_all (apart_spring ms) ss" and "list_all (\<lambda>mm. fin_v (position mm)) ms"
    and "list_all (\<lambda>mm. fin_v (forcesApplied mm)) ms"
  shows "\<exists>ms'. updateForces_loop ss ms = Some ms'
     \<and> list_all (\<lambda>mm. fin_v (forcesApplied mm)) ms'
     \<and> total_force c ms' = total_force c ms"
  using assms
proof (induction ss arbitrary: ms)
  case Nil
  then show ?case by simp
next
  case (Cons s ss)
  from Cons.prems(1) have "apart_spring ms s" by simp
  from updateForces_body_total [OF this Cons.prems(2,3), of c] obtain ms1 where
    b: "updateForces_body s ms = Some ms1"
    and fin1: "list_all (\<lambda>mm. fin_v (forcesApplied mm)) ms1"
    and tot1: "total_force c ms1 = total_force c ms"
    by blast
  from b have fr: "map forcesZero_body ms1 = map forcesZero_body ms"
    by (rule updateForces_body_frame)
  have "apart_spring ms1 = apart_spring ms"
    using apart_spring_frame [OF fr] by (simp add: fun_eq_iff)
  with Cons.prems(1) have ap1: "list_all (apart_spring ms1) ss"
    by simp
  have "list_all fin_v (map position ms1) = list_all fin_v (map position ms)"
    by (simp only: map_position_frame [OF fr])
  with Cons.prems(2) have pos1: "list_all (\<lambda>mm. fin_v (position mm)) ms1"
    by (simp add: list_all_iff)
  from Cons.IH [OF ap1 pos1 fin1] obtain ms' where
    "updateForces_loop ss ms1 = Some ms'" "list_all (\<lambda>mm. fin_v (forcesApplied mm)) ms'"
    "total_force c ms' = total_force c ms1"
    by blast
  with b tot1 show ?case by simp
qed

lemma applyForces_body_momentum:
  assumes "free_finite_mass mm" and "fin_v (forcesApplied mm)" and "is_Fin dt"
  shows "free_finite_mass (applyForces_body dt mm)
     \<and> the_real (m (applyForces_body dt mm)) * coord c (velocity (applyForces_body dt mm))
         = the_real (m mm) * coord c (velocity mm) + the_real dt * coord c (forcesApplied mm)"
proof -
  from assms(1) obtain a where a: "m mm = Fin a" "a \<noteq> 0"
    by (auto simp: free_finite_mass_def dest!: is_Fin_E)
  from assms(1) obtain px py vx vy where pv: "position mm = (Fin px, Fin py)" "velocity mm = (Fin vx, Fin vy)"
    by (auto simp: free_finite_mass_def dest!: fin_v_E)
  from assms(2) obtain fx fy where f: "forcesApplied mm = (Fin fx, Fin fy)"
    by (auto dest!: fin_v_E)
  from assms(3) obtain d where d: "dt = Fin d"
    by (auto dest!: is_Fin_E)
  from assms(1) have nf: "\<not> isFixed mm"
    by (simp add: free_finite_mass_def)
  show ?thesis
    using a pv f d nf
    by (simp add: applyForces_body_def Let_def free_finite_mass_def field_simps)
qed

lemma momentum_coord:
  assumes "list_all free_finite_mass ms"
  shows "fin_v (vsum (map (\<lambda>mm. scale (m mm) (velocity mm)) ms))
     \<and> coord c (vsum (map (\<lambda>mm. scale (m mm) (velocity mm)) ms))
         = sum_list (map (\<lambda>mm. the_real (m mm) * coord c (velocity mm)) ms)"
proof -
  have e: "fin_v (scale (m mm) (velocity mm))
      \<and> coord c (scale (m mm) (velocity mm)) = the_real (m mm) * coord c (velocity mm)"
    if "mm \<in> set ms" for mm
  proof -
    from assms that have "is_Fin (m mm)" "fin_v (velocity mm)"
      by (simp_all add: list_all_iff free_finite_mass_def)
    then show ?thesis by (rule scale_fin)
  qed
  then have "list_all fin_v (map (\<lambda>mm. scale (m mm) (velocity mm)) ms)"
    by (simp add: list_all_iff)
  from vsum_fin [OF this, of c]
  have "fin_v (vsum (map (\<lambda>mm. scale (m mm) (velocity mm)) ms))"
    and "coord c (vsum (map (\<lambda>mm. scale (m mm) (velocity mm)) ms))
         = sum_list (map (\<lambda>mm. coord c (scale (m mm) (velocity mm))) ms)"
    by (simp_all add: o_def)
  moreover have "map (\<lambda>mm. coord c (scale (m mm) (velocity mm))) ms
      = map (\<lambda>mm. the_real (m mm) * coord c (velocity mm)) ms"
    using e by (intro map_cong) simp_all
  ultimately show ?thesis by simp
qed

lemma free_finite_mass_forcesZero_body [simp]:
  "free_finite_mass (forcesZero_body mm) = free_finite_mass mm"
  by (simp add: free_finite_mass_def forcesZero_body_def)

lemma free_finite_mass_frame:
  assumes "map forcesZero_body ms' = map forcesZero_body ms"
  shows "list_all free_finite_mass ms' = list_all free_finite_mass ms"
proof -
  have "list_all free_finite_mass xs = list_all free_finite_mass (map forcesZero_body xs)" for xs
    by (simp add: list_all_iff)
  then have "list_all free_finite_mass ms' = list_all free_finite_mass (map forcesZero_body ms')"
    and "list_all free_finite_mass ms = list_all free_finite_mass (map forcesZero_body ms)"
    by blast+
  with assms show ?thesis by simp
qed

lemma momentum_terms_frame:
  assumes "map forcesZero_body ms' = map forcesZero_body ms"
  shows "map (\<lambda>mm. the_real (m mm) * coord c (velocity mm)) ms'
       = map (\<lambda>mm. the_real (m mm) * coord c (velocity mm)) ms"
proof -
  have "map (\<lambda>mm. the_real (m mm) * coord c (velocity mm)) xs
      = map (\<lambda>mm. the_real (m mm) * coord c (velocity mm)) (map forcesZero_body xs)" for xs
    by (simp add: forcesZero_body_def o_def)
  then have "map (\<lambda>mm. the_real (m mm) * coord c (velocity mm)) ms'
      = map (\<lambda>mm. the_real (m mm) * coord c (velocity mm)) (map forcesZero_body ms')"
    and "map (\<lambda>mm. the_real (m mm) * coord c (velocity mm)) ms
      = map (\<lambda>mm. the_real (m mm) * coord c (velocity mm)) (map forcesZero_body ms)"
    by blast+
  with assms show ?thesis by simp
qed

lemma total_force_zero: "total_force c (map forcesZero_body ms) = 0"
  by (induction ms) (simp_all add: total_force_def forcesZero_body_def Zero_def)

text \<open>
  C6.  Take a System without fixed masses, whose masses have finite non-zero scalar
  masses and finite positions and velocities, and whose springs have valid endpoints at
  two different positions and finite \<open>k\<close> and \<open>l\<close>; take a finite \<open>dt\<close>.  With the exact
  arithmetic of finite values, the composite step returns and leaves the total momentum
  as it was; the masses are again free and finite.
\<close>

theorem momentum_conserved:
  assumes "is_Fin dt" and "list_all free_finite_mass (masses sys)"
    and "list_all (apart_spring (masses sys)) (springs sys)"
  shows "\<exists>sys'. process dt sys = Some sys' \<and> momentum sys' = momentum sys
     \<and> list_all free_finite_mass (masses sys')"
proof -
  define ms0 where "ms0 = map forcesZero_body (masses sys)"
  have fr0: "map forcesZero_body ms0 = map forcesZero_body (masses sys)"
    by (simp add: ms0_def forcesZero_body_def)
  have "apart_spring ms0 = apart_spring (masses sys)"
    using apart_spring_frame [OF fr0] by (simp add: fun_eq_iff)
  with assms(3) have ap0: "list_all (apart_spring ms0) (springs sys)"
    by simp
  have pos0: "list_all (\<lambda>mm. fin_v (position mm)) ms0"
    using assms(2) by (simp add: ms0_def list_all_iff free_finite_mass_def forcesZero_body_def)
  have fin0: "list_all (\<lambda>mm. fin_v (forcesApplied mm)) ms0"
    by (simp add: ms0_def list_all_iff forcesZero_body_def Zero_def)
  from updateForces_loop_total [OF ap0 pos0 fin0, of True] obtain msF where
    loop: "updateForces_loop (springs sys) ms0 = Some msF"
    and finF: "list_all (\<lambda>mm. fin_v (forcesApplied mm)) msF"
    by blast
  have tot: "total_force c msF = 0" for c
    using updateForces_loop_total [OF ap0 pos0 fin0, of c] loop
    by (auto simp: ms0_def total_force_zero)
  from updateForces_loop_frame [OF loop] fr0
  have frF: "map forcesZero_body msF = map forcesZero_body (masses sys)"
    by simp
  have freeF: "list_all free_finite_mass msF"
    using free_finite_mass_frame [OF frF] assms(2) by simp
  define sys' where "sys' = applyForces dt (sys\<lparr>masses := msF\<rparr>)"
  have p: "process dt sys = Some sys'"
    using loop by (simp add: process_def updateForces_def forcesZero_def ms0_def sys'_def)
  have ms': "masses sys' = map (applyForces_body dt) msF"
    by (simp add: sys'_def applyForces_def)
  have each: "free_finite_mass (applyForces_body dt mm)
     \<and> the_real (m (applyForces_body dt mm)) * coord c (velocity (applyForces_body dt mm))
         = the_real (m mm) * coord c (velocity mm) + the_real dt * coord c (forcesApplied mm)"
    if "mm \<in> set msF" for mm c
  proof -
    from that freeF finF have "free_finite_mass mm" "fin_v (forcesApplied mm)"
      by (simp_all add: list_all_iff)
    then show ?thesis using assms(1) by (rule applyForces_body_momentum)
  qed
  then have free': "list_all free_finite_mass (masses sys')"
    by (simp add: ms' list_all_iff)
  have after: "coord c (momentum sys')
      = sum_list (map (\<lambda>mm. the_real (m mm) * coord c (velocity mm)) (masses sys))" for c
  proof -
    have e1: "coord c (momentum sys')
        = sum_list (map (\<lambda>mm. the_real (m mm) * coord c (velocity mm)) (masses sys'))"
      unfolding momentum_def using momentum_coord [OF free', of c] by simp
    have e2: "map (\<lambda>mm. the_real (m mm) * coord c (velocity mm)) (masses sys')
        = map (\<lambda>mm. the_real (m mm) * coord c (velocity mm)
                    + the_real dt * coord c (forcesApplied mm)) msF"
      unfolding ms' map_map o_def using each by (intro map_cong) simp_all
    have e3: "sum_list (map (\<lambda>mm. the_real (m mm) * coord c (velocity mm)
                    + the_real dt * coord c (forcesApplied mm)) msF)
        = sum_list (map (\<lambda>mm. the_real (m mm) * coord c (velocity mm)) msF)
          + the_real dt * total_force c msF"
      by (simp add: sum_list_addf sum_list_const_mult total_force_def)
    have e4: "sum_list (map (\<lambda>mm. the_real (m mm) * coord c (velocity mm)) msF)
        = sum_list (map (\<lambda>mm. the_real (m mm) * coord c (velocity mm)) (masses sys))"
      by (simp only: momentum_terms_frame [OF frF])
    show ?thesis
      unfolding e1 e2 e3 e4 tot by simp
  qed
  have before: "coord c (momentum sys)
      = sum_list (map (\<lambda>mm. the_real (m mm) * coord c (velocity mm)) (masses sys))" for c
    unfolding momentum_def using momentum_coord [OF assms(2), of c] by simp
  have "momentum sys' = momentum sys"
  proof (rule fin_v_eqI)
    show "fin_v (momentum sys')"
      unfolding momentum_def using momentum_coord [OF free', of True] by simp
    show "fin_v (momentum sys)"
      unfolding momentum_def using momentum_coord [OF assms(2), of True] by simp
    show "coord c (momentum sys') = coord c (momentum sys)" for c
      by (simp add: after before)
  qed
  with p free' show ?thesis by blast
qed

theorem momentum_conserved_witness:
  "is_Fin test1_dt \<and> list_all free_finite_mass (masses free_pair_system)
   \<and> list_all (apart_spring (masses free_pair_system)) (springs free_pair_system)
   \<and> (\<exists>sys'. process test1_dt free_pair_system = Some sys'
         \<and> momentum sys' = (Fin 0, Fin 0))"
proof -
  have h1: "is_Fin test1_dt"
    by (simp add: test1_dt_def)
  have h2: "list_all free_finite_mass (masses free_pair_system)"
    by (simp add: free_pair_system_def free_finite_mass_def Mass_xym_def)
  have h3: "list_all (apart_spring (masses free_pair_system)) (springs free_pair_system)"
    by (simp add: free_pair_system_def apart_spring_def wired_spring_def test1_spring_def
        Mass_xym_def)
  have "momentum free_pair_system = (Fin 0, Fin 0)"
    by (simp add: momentum_def free_pair_system_def Mass_xym_def Zero_def)
  with momentum_conserved [OF h1 h2 h3]
  have "\<exists>sys'. process test1_dt free_pair_system = Some sys' \<and> momentum sys' = (Fin 0, Fin 0)"
    by auto
  with h1 h2 h3 show ?thesis by blast
qed

end
